theory Spec2Isabelle
  imports Main "HOL-Library.Product_Lexorder" "HOL-Library.Option_ord"
begin

section \<open>Data model (todos/models.py)\<close>

text \<open>
  A user of \<open>django.contrib.auth\<close> is identified by its primary key. A
  \<open>datetime.date\<close> is its proleptic Gregorian ordinal, so that comparison is the
  comparison of ordinals and the \<open>days\<close> of a difference of two dates is the
  difference of their ordinals. A timestamp is a number of seconds since the epoch (UTC).
  Python strings are lists of code points; a \<open>char\<close> stands for a code point below 256.
\<close>

type_synonym user_id = nat
type_synonym date = int
type_synonym datetime = int

text \<open>
  The model \<open>Todo\<close>. The owner is nullable in the schema (\<open>null=True\<close>), an
  instance that was never saved has no primary key, the description is nullable.
\<close>

record todo =
  pk :: "nat option"
  user :: "user_id option"
  title :: string
  description :: "string option"
  completed :: bool
  priority :: int
  due_date :: "date option"
  created_at :: datetime
  updated_at :: datetime

text \<open>\<open>timezone.now().date()\<close>: the UTC date of an instant (1970-01-01 has ordinal 719163).\<close>

definition date_of :: "datetime \<Rightarrow> date" where
  "date_of now = 719163 + now div 86400"

text \<open>
  \<open>Todo.is_overdue\<close>, with the current date as a parameter. A date object is always
  truthy, so \<open>if self.due_date\<close> tests for \<open>None\<close>.
\<close>

definition is_overdue :: "date \<Rightarrow> todo \<Rightarrow> bool" where
  "is_overdue today self =
     (case due_date self of
        Some d \<Rightarrow> if \<not> completed self then d < today else False
      | None \<Rightarrow> False)"

text \<open>\<open>Todo.days_until_due\<close>: \<open>None\<close> is Python's \<open>None\<close>.\<close>

definition days_until_due :: "date \<Rightarrow> todo \<Rightarrow> int option" where
  "days_until_due today self =
     (case due_date self of
        Some d \<Rightarrow> Some (d - today)
      | None \<Rightarrow> None)"

section \<open>Validation (todos/forms.py)\<close>

datatype form_error =
    Required
  | MaxLength
  | NullCharacters
  | InvalidChoice
  | DueDateInPast
  | TitleTooShort

text \<open>
  \<open>str.strip()\<close> without an argument removes leading and trailing whitespace; below
  code point 256 the whitespace characters are 9 to 13, 28 to 32, 133 and 160.
\<close>

definition isspace :: "char \<Rightarrow> bool" where
  "isspace c = ((of_char c :: nat) \<in> {9, 10, 11, 12, 13, 28, 29, 30, 31, 32, 133, 160})"

definition lstrip :: "string \<Rightarrow> string" where
  "lstrip s = dropWhile isspace s"

definition rstrip :: "string \<Rightarrow> string" where
  "rstrip s = rev (dropWhile isspace (rev s))"

definition strip :: "string \<Rightarrow> string" where
  "strip s = rstrip (lstrip s)"

text \<open>
  \<open>TodoForm.clean_due_date\<close>: the argument is \<open>cleaned_data.get('due_date')\<close>,
  which is \<open>None\<close> for an empty field.
\<close>

definition clean_due_date :: "date \<Rightarrow> date option \<Rightarrow> form_error + date option" where
  "clean_due_date today dd =
     (case dd of
        Some d \<Rightarrow> if d < today then Inl DueDateInPast else Inr dd
      | None \<Rightarrow> Inr dd)"

text \<open>
  \<open>TodoForm.clean_title\<close>: the argument is the entry of \<open>cleaned_data\<close> under
  \<open>'title'\<close>, with \<open>''\<close> as the default of \<open>get\<close>.
\<close>

definition clean_title :: "string option \<Rightarrow> form_error + string" where
  "clean_title entry =
     (let title = strip (case entry of Some s \<Rightarrow> s | None \<Rightarrow> [])
      in if length title < 3 then Inl TitleTooShort else Inr title)"

text \<open>
  The form field that the model form generates for \<open>title\<close>
  (\<open>CharField(max_length=200)\<close>, not blank): it strips the submitted text, requires
  it to be non-empty, and runs the maximum-length and the null-character validators. Of
  several validator errors the first one is kept.
\<close>

definition title_field_clean :: "string \<Rightarrow> form_error + string" where
  "title_field_clean raw =
     (let v = strip raw
      in if v = [] then Inl Required
         else if 200 < length v then Inl MaxLength
         else if CHR 0x00 \<in> set v then Inl NullCharacters
         else Inr v)"

text \<open>The field generated for \<open>priority\<close>: a choice among \<open>PRIORITY_CHOICES\<close>.\<close>

definition PRIORITY_CHOICES :: "int list" where
  "PRIORITY_CHOICES = [1, 2, 3, 4, 5]"

definition priority_field_clean :: "int \<Rightarrow> form_error + int" where
  "priority_field_clean p = (if p \<in> set PRIORITY_CHOICES then Inr p else Inl InvalidChoice)"

text \<open>
  The submitted data of a \<open>TodoForm\<close> (\<open>fields = ['title', 'description',
  'priority', 'due_date']\<close>), after the fields' conversion to Python values: the
  priority as an integer, the due date as a date or \<open>None\<close> for an empty field.
\<close>

record todo_form_data =
  data_title :: string
  data_description :: string
  data_priority :: int
  data_due_date :: "date option"

record cleaned_data =
  cleaned_title :: string
  cleaned_description :: string
  cleaned_priority :: int
  cleaned_due_date :: "date option"

text \<open>
  Cleaning of one field: the field's own cleaning, then the form's \<open>clean_<name>\<close>
  method if the field's cleaning passed.
\<close>

definition clean_field_title :: "string \<Rightarrow> form_error + string" where
  "clean_field_title raw =
     (case title_field_clean raw of
        Inl e \<Rightarrow> Inl e
      | Inr v \<Rightarrow> clean_title (Some v))"

definition errors_of :: "string \<Rightarrow> form_error + 'a \<Rightarrow> (string \<times> form_error) list" where
  "errors_of name r = (case r of Inl e \<Rightarrow> [(name, e)] | Inr _ \<Rightarrow> [])"

text \<open>
  The field generated for \<open>description\<close> (a \<open>TextField\<close> that may be blank):
  it strips the submitted text and runs the null-character validator.
\<close>

definition description_field_clean :: "string \<Rightarrow> form_error + string" where
  "description_field_clean raw =
     (let v = strip raw
      in if CHR 0x00 \<in> set v then Inl NullCharacters else Inr v)"

text \<open>
  \<open>form.is_valid()\<close> with the errors of all fields, in the order of the fields; the
  cleaned data when there is no error.
\<close>

definition full_clean :: "date \<Rightarrow> todo_form_data \<Rightarrow> (string \<times> form_error) list + cleaned_data" where
  "full_clean today fd =
     (let t = clean_field_title (data_title fd);
          ds = description_field_clean (data_description fd);
          p = priority_field_clean (data_priority fd);
          dd = clean_due_date today (data_due_date fd)
      in case (t, ds, p, dd) of
           (Inr t', Inr ds', Inr p', Inr dd') \<Rightarrow>
             Inr \<lparr>cleaned_title = t', cleaned_description = ds',
                  cleaned_priority = p', cleaned_due_date = dd'\<rparr>
         | _ \<Rightarrow> Inl (errors_of ''title'' t @ errors_of ''description'' ds
                    @ errors_of ''priority'' p @ errors_of ''due_date'' dd))"

text \<open>\<open>construct_instance\<close>: the cleaned data written to the form's instance.\<close>

definition construct_instance :: "cleaned_data \<Rightarrow> todo \<Rightarrow> todo" where
  "construct_instance c inst =
     inst\<lparr>title := cleaned_title c, description := Some (cleaned_description c),
          priority := cleaned_priority c, due_date := cleaned_due_date c\<rparr>"

section \<open>The table of todos\<close>

datatype exn = DoesNotExist | MultipleObjectsReturned | Http404 | ValueError

text \<open>The table and its sequence of primary keys.\<close>

record db =
  rows :: "todo list"
  next_pk :: nat

definition empty_db :: db where
  "empty_db = \<lparr>rows = [], next_pk = 1\<rparr>"

text \<open>
  Query sets are lists of rows. The filters below select rows; the order of a query set
  of the model is \<open>Meta.ordering\<close>, see \<open>order_by_meta\<close>.
\<close>

definition filter_user :: "user_id \<Rightarrow> todo list \<Rightarrow> todo list" where
  "filter_user u qs = filter (\<lambda>t. user t = Some u) qs"

definition filter_completed :: "bool \<Rightarrow> todo list \<Rightarrow> todo list" where
  "filter_completed b qs = filter (\<lambda>t. completed t = b) qs"

definition filter_priority :: "int \<Rightarrow> todo list \<Rightarrow> todo list" where
  "filter_priority p qs = filter (\<lambda>t. priority t = p) qs"

definition filter_pk :: "nat \<Rightarrow> todo list \<Rightarrow> todo list" where
  "filter_pk k qs = filter (\<lambda>t. pk t = Some k) qs"

text \<open>
  \<open>Meta.ordering = ['-priority', 'completed', 'due_date']\<close>: descending priority,
  then not completed before completed, then ascending due date. A due date that is
  \<open>NULL\<close> comes first, as in SQLite, the database of a new Django project. Rows that
  are equal in all three keys stay in the order of the table; their order is the choice
  of the database.
\<close>

definition meta_ordering_key :: "todo \<Rightarrow> int \<times> bool \<times> date option" where
  "meta_ordering_key t = (- priority t, completed t, due_date t)"

definition order_by_meta :: "todo list \<Rightarrow> todo list" where
  "order_by_meta qs = sort_key meta_ordering_key qs"

text \<open>\<open>Todo.objects.filter(user=u)\<close>, in the order of the model.\<close>

definition objects_filter_user :: "user_id \<Rightarrow> db \<Rightarrow> todo list" where
  "objects_filter_user u d = order_by_meta (filter_user u (rows d))"

text \<open>\<open>QuerySet.get()\<close>: the one row of the query set.\<close>

definition qs_get :: "todo list \<Rightarrow> exn + todo" where
  "qs_get qs =
     (case qs of
        [] \<Rightarrow> Inl DoesNotExist
      | [t] \<Rightarrow> Inr t
      | _ \<Rightarrow> Inl MultipleObjectsReturned)"

text \<open>
  \<open>SingleObjectMixin.get_object\<close> over a view's query set, and
  \<open>get_object_or_404\<close>: both turn \<open>DoesNotExist\<close> into \<open>Http404\<close>.
\<close>

definition get_object :: "todo list \<Rightarrow> nat \<Rightarrow> exn + todo" where
  "get_object queryset k =
     (case qs_get (filter_pk k queryset) of
        Inl DoesNotExist \<Rightarrow> Inl Http404
      | Inl e \<Rightarrow> Inl e
      | Inr t \<Rightarrow> Inr t)"

definition get_object_or_404 :: "db \<Rightarrow> nat \<Rightarrow> user_id \<Rightarrow> exn + todo" where
  "get_object_or_404 d k u =
     (case qs_get (filter_user u (filter_pk k (rows d))) of
        Inl DoesNotExist \<Rightarrow> Inl Http404
      | Inl e \<Rightarrow> Inl e
      | Inr t \<Rightarrow> Inr t)"

text \<open>
  \<open>Model.save\<close>: an instance with a primary key updates its row, or is inserted
  under that key when no row has it; an instance without one is inserted under the
  next key. \<open>auto_now\<close> sets \<open>updated_at\<close> on every save, \<open>auto_now_add\<close>
  sets \<open>created_at\<close> on insertion.
\<close>

definition model_save :: "datetime \<Rightarrow> todo \<Rightarrow> db \<Rightarrow> todo \<times> db" where
  "model_save now self d =
     (case pk self of
        Some k \<Rightarrow>
          if Some k \<in> set (map pk (rows d)) then
            (let self' = self\<lparr>updated_at := now\<rparr>
             in (self', d\<lparr>rows := map (\<lambda>t. if pk t = Some k then self' else t) (rows d)\<rparr>))
          else
            (let self' = self\<lparr>created_at := now, updated_at := now\<rparr>
             in (self', \<lparr>rows = rows d @ [self'], next_pk = max (next_pk d) (Suc k)\<rparr>))
      | None \<Rightarrow>
          (let self' = self\<lparr>pk := Some (next_pk d), created_at := now, updated_at := now\<rparr>
           in (self', \<lparr>rows = rows d @ [self'], next_pk = Suc (next_pk d)\<rparr>)))"

text \<open>
  \<open>Todo.save\<close>: \<open>not self.pk\<close> holds for \<open>None\<close> and for 0, \<open>not
  self.user\<close> for \<open>None\<close>.
\<close>

definition save :: "datetime \<Rightarrow> todo \<Rightarrow> db \<Rightarrow> exn + todo \<times> db" where
  "save now self d =
     (if (pk self = None \<or> pk self = Some 0) \<and> user self = None then Inl ValueError
      else Inr (model_save now self d))"

text \<open>\<open>Model.delete\<close>: the row of the instance's primary key is removed.\<close>

definition model_delete :: "todo \<Rightarrow> db \<Rightarrow> db" where
  "model_delete self d = d\<lparr>rows := filter (\<lambda>t. pk t \<noteq> pk self) (rows d)\<rparr>"

section \<open>Requests and responses\<close>

datatype http_method = Get | Post

text \<open>
  A request: its method (GET and POST are modelled), \<open>request.user\<close> (\<open>None\<close>
  for the anonymous user), the query parameters \<open>request.GET\<close> and the submitted
  form data.
\<close>

record request =
  http_method :: http_method
  req_user :: "user_id option"
  GET :: "string \<rightharpoonup> string"
  POST :: todo_form_data

datatype level = SUCCESS | INFO | ERROR

text \<open>The context of the list template.\<close>

record list_context =
  todos :: "todo list"
  total_count :: nat
  active_count :: nat
  completed_count :: nat
  overdue_count :: nat
  current_filter :: string
  priority_filter :: string

text \<open>
  A response: a redirect to a named URL with the flash messages queued by the request,
  a rendered page, the redirect of an anonymous user to the login page, the 405 answer
  of a class-based view without a handler for the method, the 404 page of an
  \<open>Http404\<close> that reaches the framework, the 500 page of any other exception that
  does.
\<close>

datatype response =
    Redirect string "(level \<times> string) list"
  | ListPage list_context
  | FormPage "(string \<times> form_error) list"
  | ConfirmDeletePage todo
  | LoginRedirect
  | MethodNotAllowed
  | PageNotFound
  | ServerError exn

definition uncaught :: "exn \<Rightarrow> response" where
  "uncaught e = (if e = Http404 then PageNotFound else ServerError e)"

text \<open>\<open>LoginRequiredMixin\<close> and \<open>login_required\<close>.\<close>

definition login_required ::
  "(user_id \<Rightarrow> db \<Rightarrow> response \<times> db) \<Rightarrow> request \<Rightarrow> db \<Rightarrow> response \<times> db" where
  "login_required view req d =
     (case req_user req of
        None \<Rightarrow> (LoginRedirect, d)
      | Some u \<Rightarrow> view u d)"

definition quoted :: "string \<Rightarrow> string" where
  "quoted s = [CHR 0x22] @ s @ [CHR 0x22]"

section \<open>The list view (todos/views.py, TodoListView)\<close>

definition get_queryset :: "user_id \<Rightarrow> db \<Rightarrow> todo list" where
  "get_queryset u d = objects_filter_user u d"

text \<open>\<open>QueryDict.get(key, default)\<close>.\<close>

definition dict_get :: "(string \<rightharpoonup> string) \<Rightarrow> string \<Rightarrow> string \<Rightarrow> string" where
  "dict_get m k dflt = (case m k of Some v \<Rightarrow> v | None \<Rightarrow> dflt)"

text \<open>
  \<open>str.isdigit()\<close>: the string is not empty and all its characters are digits. Below
  code point 256 the digits are \<open>0\<close> to \<open>9\<close> and the superscripts two, three and one
  (178, 179, 185).
\<close>

definition isdecimal_char :: "char \<Rightarrow> bool" where
  "isdecimal_char c = (48 \<le> (of_char c :: nat) \<and> (of_char c :: nat) \<le> 57)"

definition isdigit_char :: "char \<Rightarrow> bool" where
  "isdigit_char c = (isdecimal_char c \<or> (of_char c :: nat) \<in> {178, 179, 185})"

definition isdigit :: "string \<Rightarrow> bool" where
  "isdigit s = (s \<noteq> [] \<and> list_all isdigit_char s)"

text \<open>
  \<open>int(s)\<close> on a string for which \<open>isdigit\<close> holds: the decimal value when all
  characters are among \<open>0\<close> to \<open>9\<close> and there are at most 4300 of them. A
  superscript digit is not a decimal character, and a longer string exceeds the limit of
  the conversion (\<open>sys.int_max_str_digits\<close>, 4300 by default): in both cases
  \<open>int\<close> raises \<open>ValueError\<close>.
\<close>

definition int_max_str_digits :: nat where
  "int_max_str_digits = 4300"

definition int_of_digits :: "string \<Rightarrow> exn + int" where
  "int_of_digits s =
     (if list_all isdecimal_char s \<and> length s \<le> int_max_str_digits
      then Inr (foldl (\<lambda>acc c. 10 * acc + (int (of_char c) - 48)) 0 s)
      else Inl ValueError)"

text \<open>
  \<open>TodoListView.get_context_data\<close>, with the current date for \<open>is_overdue\<close>. The
  entry \<open>todos\<close> of the parent's context is replaced by the filtered query set.
\<close>

definition get_context_data ::
  "date \<Rightarrow> user_id \<Rightarrow> (string \<rightharpoonup> string) \<Rightarrow> db \<Rightarrow> exn + list_context" where
  "get_context_data today u params d =
     (let user_todos = objects_filter_user u d;
          total = length user_todos;
          active = length (filter_completed False user_todos);
          done = length (filter_completed True user_todos);
          overdue = sum_list (map (\<lambda>t. 1) (filter (is_overdue today) user_todos));
          status = dict_get params ''status'' ''all'';
          prio = dict_get params ''priority'' [];
          queryset =
            (if status = ''active'' then filter_completed False user_todos
             else if status = ''completed'' then filter_completed True user_todos
             else user_todos);
          context = (\<lambda>qs. \<lparr>todos = qs, total_count = total, active_count = active,
             completed_count = done, overdue_count = overdue,
             current_filter = status, priority_filter = prio\<rparr>)
      in if prio \<noteq> [] \<and> isdigit prio then
           (case int_of_digits prio of
              Inl e \<Rightarrow> Inl e
            | Inr p \<Rightarrow> Inr (context (filter_priority p queryset)))
         else Inr (context queryset))"

text \<open>
  \<open>TodoListView\<close>: a \<open>ListView\<close> handles GET only; after the login check a
  POST is answered with 405.
\<close>

definition TodoListView :: "datetime \<Rightarrow> request \<Rightarrow> db \<Rightarrow> response \<times> db" where
  "TodoListView now req =
     login_required (\<lambda>u d.
       case http_method req of
         Get \<Rightarrow>
           (case get_context_data (date_of now) u (GET req) d of
              Inl e \<Rightarrow> (uncaught e, d)
            | Inr c \<Rightarrow> (ListPage c, d))
       | Post \<Rightarrow> (MethodNotAllowed, d)) req"

section \<open>The create, update and delete views and the toggle (todos/views.py)\<close>

text \<open>A fresh instance \<open>Todo()\<close> with the defaults of the model's fields.\<close>

definition new_todo :: todo where
  "new_todo = \<lparr>pk = None, user = None, title = [], description = None, completed = False,
     priority = 3, due_date = None, created_at = 0, updated_at = 0\<rparr>"

definition todo_list_url :: string where
  "todo_list_url = ''todos:todo_list''"

text \<open>
  \<open>TodoCreateView\<close>: a GET shows the empty form; a POST validates the form,
  \<open>form_valid\<close> sets the owner to \<open>request.user\<close> and saves the instance.
\<close>

definition TodoCreateView :: "datetime \<Rightarrow> request \<Rightarrow> db \<Rightarrow> response \<times> db" where
  "TodoCreateView now req =
     login_required (\<lambda>u d.
       case http_method req of
         Get \<Rightarrow> (FormPage [], d)
       | Post \<Rightarrow>
           (case full_clean (date_of now) (POST req) of
              Inl errs \<Rightarrow> (FormPage errs, d)
            | Inr c \<Rightarrow>
                (case save now ((construct_instance c new_todo)\<lparr>user := Some u\<rparr>) d of
                   Inl e \<Rightarrow> (uncaught e, d)
                 | Inr (obj, d') \<Rightarrow>
                     (Redirect todo_list_url
                        [(SUCCESS, ''Task '' @ quoted (title obj) @ '' created successfully!'')],
                      d')))) req"

text \<open>
  \<open>TodoUpdateView\<close>: the object is looked up in the caller's query set first, for
  both methods; a valid POST writes the cleaned data to it and saves it.
\<close>

definition TodoUpdateView :: "datetime \<Rightarrow> request \<Rightarrow> nat \<Rightarrow> db \<Rightarrow> response \<times> db" where
  "TodoUpdateView now req k =
     login_required (\<lambda>u d.
       case get_object (get_queryset u d) k of
         Inl e \<Rightarrow> (uncaught e, d)
       | Inr obj \<Rightarrow>
           (case http_method req of
              Get \<Rightarrow> (FormPage [], d)
            | Post \<Rightarrow>
                (case full_clean (date_of now) (POST req) of
                   Inl errs \<Rightarrow> (FormPage errs, d)
                 | Inr c \<Rightarrow>
                     (case save now (construct_instance c obj) d of
                        Inl e \<Rightarrow> (uncaught e, d)
                      | Inr (obj', d') \<Rightarrow>
                          (Redirect todo_list_url
                             [(SUCCESS, ''Task '' @ quoted (title obj') @ '' updated successfully!'')],
                           d'))))) req"

text \<open>
  \<open>TodoDeleteView.delete\<close>, the method that the view overrides. The two
  \<open>except\<close> clauses are \<open>delete_except\<close>: the first catches
  \<open>Todo.DoesNotExist\<close>, the second every other exception.
\<close>

definition delete_except :: "exn \<Rightarrow> response" where
  "delete_except e =
     (if e = DoesNotExist
      then Redirect todo_list_url [(ERROR, ''Task not found or already deleted.'')]
      else Redirect todo_list_url [(ERROR, ''An error occurred while deleting the task.'')])"

definition delete :: "user_id \<Rightarrow> nat \<Rightarrow> db \<Rightarrow> response \<times> db" where
  "delete u k d =
     (case get_object (get_queryset u d) k of
        Inl e \<Rightarrow> (delete_except e, d)
      | Inr obj \<Rightarrow>
          if user obj \<noteq> Some u
          then (Redirect todo_list_url
                  [(ERROR, ''You don't have permission to delete this task.'')], d)
          else (Redirect todo_list_url
                  [(SUCCESS, ''Task '' @ quoted (title obj) @ '' has been deleted successfully!'')],
                model_delete obj d))"

text \<open>
  \<open>TodoDeleteView\<close>: a GET shows the confirmation page of the object. A POST is
  handled by the \<open>post\<close> of \<open>BaseDeleteView\<close> (Django 4.0 and later), which does
  not call \<open>delete\<close>: it looks the object up, validates the empty confirmation form,
  which always passes, and \<open>form_valid\<close> deletes the object and redirects to
  \<open>success_url\<close>; no message is queued.
\<close>

definition TodoDeleteView :: "request \<Rightarrow> nat \<Rightarrow> db \<Rightarrow> response \<times> db" where
  "TodoDeleteView req k =
     login_required (\<lambda>u d.
       case get_object (get_queryset u d) k of
         Inl e \<Rightarrow> (uncaught e, d)
       | Inr obj \<Rightarrow>
           (case http_method req of
              Get \<Rightarrow> (ConfirmDeletePage obj, d)
            | Post \<Rightarrow> (Redirect todo_list_url [], model_delete obj d))) req"

text \<open>\<open>toggle_completion\<close>.\<close>

definition toggle_completion :: "datetime \<Rightarrow> request \<Rightarrow> nat \<Rightarrow> db \<Rightarrow> response \<times> db" where
  "toggle_completion now req k =
     login_required (\<lambda>u d.
       case get_object_or_404 d k u of
         Inl e \<Rightarrow> (uncaught e, d)
       | Inr todo \<Rightarrow>
           (case save now (todo\<lparr>completed := \<not> completed todo\<rparr>) d of
              Inl e \<Rightarrow> (uncaught e, d)
            | Inr (todo', d') \<Rightarrow>
                (Redirect todo_list_url
                   [(INFO, ''Task '' @ quoted (title todo') @ '' ''
                       @ (if completed todo' then ''completed'' else ''marked as active'')
                       @ ''.'')],
                 d'))) req"

section \<open>Routing (todos/urls.py)\<close>

datatype route =
    todo_list
  | todo_create
  | todo_update nat
  | todo_delete nat
  | todo_toggle nat

definition dispatch :: "datetime \<Rightarrow> route \<Rightarrow> request \<Rightarrow> db \<Rightarrow> response \<times> db" where
  "dispatch now r req d =
     (case r of
        todo_list \<Rightarrow> TodoListView now req d
      | todo_create \<Rightarrow> TodoCreateView now req d
      | todo_update k \<Rightarrow> TodoUpdateView now req k d
      | todo_delete k \<Rightarrow> TodoDeleteView req k d
      | todo_toggle k \<Rightarrow> toggle_completion now req k d)"

text \<open>The table after a sequence of requests, each with the instant it is served at.\<close>

fun run :: "(datetime \<times> route \<times> request) list \<Rightarrow> db \<Rightarrow> db" where
  "run [] d = d"
| "run ((now, r, req) # rest) d = run rest (snd (dispatch now r req d))"

section \<open>Notions used in the statements\<close>

text \<open>The table's integrity: primary keys are unique, positive and below the next key.\<close>

definition pks_ok :: "db \<Rightarrow> bool" where
  "pks_ok d =
     (distinct (map pk (rows d)) \<and> 0 < next_pk d \<and>
      list_all (\<lambda>t. case pk t of Some k \<Rightarrow> 0 < k \<and> k < next_pk d | None \<Rightarrow> False) (rows d))"

text \<open>Every row has an owner.\<close>

definition owned :: "db \<Rightarrow> bool" where
  "owned d = list_all (\<lambda>t. user t \<noteq> None) (rows d)"

text \<open>A row after a toggle served at \<open>now\<close>, and the flash message of the toggle.\<close>

definition toggled :: "datetime \<Rightarrow> todo \<Rightarrow> todo" where
  "toggled now t = t\<lparr>completed := \<not> completed t, updated_at := now\<rparr>"

definition toggle_message :: "todo \<Rightarrow> level \<times> string" where
  "toggle_message t =
     (INFO, ''Task '' @ quoted (title t) @ '' ''
        @ (if completed t then ''completed'' else ''marked as active'') @ ''.'')"

text \<open>The response re-renders the form with the error of a due date in the past.\<close>

definition due_date_rejected :: "response \<Rightarrow> bool" where
  "due_date_rejected r =
     (case r of FormPage errs \<Rightarrow> (''due_date'', DueDateInPast) \<in> set errs | _ \<Rightarrow> False)"

text \<open>
  The filters of a list request, as the specification words them: the status filter
  keeps the active or the completed tasks and any other value keeps all; the priority
  filter keeps the tasks whose priority is the integer that the parameter denotes in
  decimal notation, and a parameter that is empty or not a decimal numeral keeps all.
\<close>

definition status_matches :: "string \<Rightarrow> todo \<Rightarrow> bool" where
  "status_matches status t =
     (if status = ''active'' then \<not> completed t
      else if status = ''completed'' then completed t
      else True)"

fun decimal_value :: "string \<Rightarrow> int" where
  "decimal_value [] = 0"
| "decimal_value (c # cs) = (int (of_char c) - 48) * 10 ^ length cs + decimal_value cs"

definition priority_matches :: "string \<Rightarrow> todo \<Rightarrow> bool" where
  "priority_matches prio t =
     (if prio \<noteq> [] \<and> list_all isdecimal_char prio then priority t = decimal_value prio
      else True)"

section \<open>Example data\<close>

definition milk_form :: todo_form_data where
  "milk_form = \<lparr>data_title = ''  buy milk '', data_description = [], data_priority = 3,
     data_due_date = None\<rparr>"

definition post_by :: "user_id \<Rightarrow> request" where
  "post_by u = \<lparr>http_method = Post, req_user = Some u, GET = Map.empty, POST = milk_form\<rparr>"

definition get_by :: "user_id \<Rightarrow> request" where
  "get_by u = \<lparr>http_method = Get, req_user = Some u, GET = Map.empty, POST = milk_form\<rparr>"

text \<open>The list request \<open>?priority=\<close> followed by the superscript two, by user \<open>u\<close>.\<close>

definition superscript_two :: "string \<rightharpoonup> string" where
  "superscript_two = [''priority'' \<mapsto> [CHR 0xB2]]"

definition get_superscript_by :: "user_id \<Rightarrow> request" where
  "get_superscript_by u =
     \<lparr>http_method = Get, req_user = Some u, GET = superscript_two, POST = milk_form\<rparr>"

definition milk :: todo where
  "milk = \<lparr>pk = Some 1, user = Some 1, title = ''buy milk'', description = Some [],
     completed = False, priority = 3, due_date = None, created_at = 100, updated_at = 100\<rparr>"

definition one_task_db :: db where
  "one_task_db = \<lparr>rows = [milk], next_pk = 2\<rparr>"

text \<open>A submission whose due date is the day before the instant 100.\<close>

definition late_form :: todo_form_data where
  "late_form = milk_form\<lparr>data_due_date := Some 719162\<rparr>"

definition post_late_by :: "user_id \<Rightarrow> request" where
  "post_late_by u = \<lparr>http_method = Post, req_user = Some u, GET = Map.empty, POST = late_form\<rparr>"

text \<open>
  A table with three tasks of user 1 (one completed, one overdue at the instant 100) and
  one task of user 2, and the query parameters \<open>status=active&priority=3\<close>.
\<close>

definition tea :: todo where
  "tea = \<lparr>pk = Some 2, user = Some 1, title = ''make tea'', description = None,
     completed = True, priority = 5, due_date = Some 719000, created_at = 10, updated_at = 20\<rparr>"

definition walk :: todo where
  "walk = \<lparr>pk = Some 3, user = Some 2, title = ''walk'', description = None,
     completed = False, priority = 3, due_date = None, created_at = 30, updated_at = 30\<rparr>"

definition rent :: todo where
  "rent = \<lparr>pk = Some 4, user = Some 1, title = ''pay rent'', description = None,
     completed = False, priority = 3, due_date = Some 719000, created_at = 40, updated_at = 40\<rparr>"

definition four_task_db :: db where
  "four_task_db = \<lparr>rows = [milk, tea, walk, rent], next_pk = 5\<rparr>"

definition active_3 :: "string \<rightharpoonup> string" where
  "active_3 = [''status'' \<mapsto> ''active'', ''priority'' \<mapsto> ''3'']"

section \<open>Trimming\<close>

lemma rstrip_decomp: "\<exists>b. s = rstrip s @ b \<and> list_all isspace b"
proof -
  have "rev s = takeWhile isspace (rev s) @ dropWhile isspace (rev s)" by simp
  then have "s = rev (dropWhile isspace (rev s)) @ rev (takeWhile isspace (rev s))"
    by (metis rev_append rev_rev_ident)
  moreover have "list_all isspace (rev (takeWhile isspace (rev s)))"
    by (simp add: list_all_iff) (meson set_takeWhileD)
  ultimately show ?thesis unfolding rstrip_def by blast
qed

lemma lstrip_decomp: "\<exists>a. s = a @ lstrip s \<and> list_all isspace a"
proof -
  have "s = takeWhile isspace s @ lstrip s" by (simp add: lstrip_def)
  moreover have "list_all isspace (takeWhile isspace s)"
    by (simp add: list_all_iff) (meson set_takeWhileD)
  ultimately show ?thesis by blast
qed

lemma strip_decomp: "\<exists>a b. s = a @ strip s @ b \<and> list_all isspace a \<and> list_all isspace b"
proof -
  obtain a where a: "s = a @ lstrip s" "list_all isspace a" using lstrip_decomp by blast
  obtain b where b: "lstrip s = rstrip (lstrip s) @ b" "list_all isspace b"
    using rstrip_decomp by blast
  have "s = a @ strip s @ b" using a(1) b(1) by (simp add: strip_def)
  then show ?thesis using a(2) b(2) by blast
qed

lemma lstrip_hd: "lstrip s \<noteq> [] \<Longrightarrow> \<not> isspace (hd (lstrip s))"
  unfolding lstrip_def by (simp add: hd_dropWhile)

lemma rstrip_last: "rstrip s \<noteq> [] \<Longrightarrow> \<not> isspace (last (rstrip s))"
  unfolding rstrip_def by (simp add: last_rev hd_dropWhile)

lemma rstrip_hd: "rstrip s \<noteq> [] \<Longrightarrow> hd (rstrip s) = hd s"
proof -
  assume ne: "rstrip s \<noteq> []"
  obtain b where "s = rstrip s @ b" using rstrip_decomp by blast
  then have "hd s = hd (rstrip s @ b)" by simp
  then show ?thesis using ne by simp
qed

lemma strip_ends: "strip s \<noteq> [] \<Longrightarrow> \<not> isspace (hd (strip s)) \<and> \<not> isspace (last (strip s))"
proof -
  assume ne: "strip s \<noteq> []"
  then have l: "lstrip s \<noteq> []" by (auto simp: strip_def rstrip_def)
  have "hd (strip s) = hd (lstrip s)" using ne rstrip_hd by (simp add: strip_def)
  then show ?thesis using ne l lstrip_hd rstrip_last by (simp add: strip_def)
qed

lemma lstrip_id: "s \<noteq> [] \<Longrightarrow> \<not> isspace (hd s) \<Longrightarrow> lstrip s = s"
  by (cases s) (simp_all add: lstrip_def)

lemma rstrip_id: "s \<noteq> [] \<Longrightarrow> \<not> isspace (last s) \<Longrightarrow> rstrip s = s"
  by (cases "rev s") (simp_all add: rstrip_def hd_rev [symmetric] rev_swap)

lemma strip_id: "s = [] \<or> (\<not> isspace (hd s) \<and> \<not> isspace (last s)) \<Longrightarrow> strip s = s"
proof (cases "s = []")
  case True
  then show ?thesis by (simp add: strip_def lstrip_def rstrip_def)
next
  case False
  assume "s = [] \<or> (\<not> isspace (hd s) \<and> \<not> isspace (last s))"
  with False have h: "\<not> isspace (hd s)" "\<not> isspace (last s)" by auto
  have "lstrip s = s" using False h(1) by (rule lstrip_id)
  moreover have "rstrip s = s" using False h(2) by (rule rstrip_id)
  ultimately show ?thesis by (simp add: strip_def)
qed

lemma strip_strip: "strip (strip s) = strip s"
  using strip_ends [of s] strip_id [of "strip s"] by blast

section \<open>The form and the derived queries\<close>

lemma clean_field_title_Inr:
  "clean_field_title raw = Inr t \<Longrightarrow> t = strip raw \<and> 3 \<le> length t"
  by (auto simp: clean_field_title_def title_field_clean_def clean_title_def Let_def strip_strip
      split: if_splits sum.splits)

lemma errors_of_mem:
  "(n, e) \<in> set (errors_of n' r) \<longleftrightarrow> n = n' \<and> r = Inl e"
  by (auto simp: errors_of_def split: sum.splits)

lemma full_clean_Inr:
  "full_clean today fd = Inr c \<longleftrightarrow>
     (\<exists>t ds p dd. clean_field_title (data_title fd) = Inr t \<and>
        description_field_clean (data_description fd) = Inr ds \<and>
        priority_field_clean (data_priority fd) = Inr p \<and>
        clean_due_date today (data_due_date fd) = Inr dd \<and>
        c = \<lparr>cleaned_title = t, cleaned_description = ds,
              cleaned_priority = p, cleaned_due_date = dd\<rparr>)"
  by (auto simp: full_clean_def Let_def split: sum.splits)

lemma full_clean_Inl:
  "full_clean today fd = Inl errs \<Longrightarrow>
     errs = errors_of ''title'' (clean_field_title (data_title fd))
          @ errors_of ''description'' (description_field_clean (data_description fd))
          @ errors_of ''priority'' (priority_field_clean (data_priority fd))
          @ errors_of ''due_date'' (clean_due_date today (data_due_date fd))"
  by (auto simp: full_clean_def Let_def split: sum.splits)

lemma clean_due_date_Inl:
  "clean_due_date today dd = Inl e \<longleftrightarrow> e = DueDateInPast \<and> (\<exists>d. dd = Some d \<and> d < today)"
  by (auto simp: clean_due_date_def split: option.splits)

lemma clean_due_date_Inr:
  "clean_due_date today dd = Inr r \<longleftrightarrow> r = dd \<and> (\<forall>d. dd = Some d \<longrightarrow> today \<le> d)"
  by (auto simp: clean_due_date_def split: option.splits)

lemma full_clean_due_date:
  "(case full_clean today fd of
      Inl errs \<Rightarrow> (''due_date'', DueDateInPast) \<in> set errs
    | Inr c \<Rightarrow> False) = (\<exists>d. data_due_date fd = Some d \<and> d < today)"
proof (cases "full_clean today fd")
  case (Inl errs)
  from full_clean_Inl [OF Inl] show ?thesis
    by (simp add: Inl errors_of_mem clean_due_date_Inl)
next
  case (Inr c)
  then have "\<forall>d. data_due_date fd = Some d \<longrightarrow> today \<le> d"
    by (auto simp: full_clean_Inr clean_due_date_Inr)
  then show ?thesis by (auto simp: Inr)
qed

text \<open>
  Claim C5. \<open>is_overdue\<close> is true exactly when the due date is set, the task is
  not completed and the due date is strictly earlier than today; without a due date, for a
  completed task and for a due date of today or later it is false.
\<close>

theorem is_overdue_iff:
  "is_overdue today t \<longleftrightarrow> (\<exists>d. due_date t = Some d \<and> \<not> completed t \<and> d < today)"
  by (auto simp: is_overdue_def split: option.splits)

text \<open>
  Claim C6. \<open>days_until_due\<close> is the signed difference in days of the due date
  and today when the due date is set: 3 for a due date three days ahead, -2 for one two
  days back, 0 for today; it is \<open>None\<close> when the due date is not set.
\<close>

theorem days_until_due_signed_difference:
  "days_until_due today t = map_option (\<lambda>d. d - today) (due_date t) \<and>
   days_until_due today (t\<lparr>due_date := Some (today + 3)\<rparr>) = Some 3 \<and>
   days_until_due today (t\<lparr>due_date := Some (today - 2)\<rparr>) = Some (- 2) \<and>
   days_until_due today (t\<lparr>due_date := Some today\<rparr>) = Some 0 \<and>
   days_until_due today (t\<lparr>due_date := None\<rparr>) = None"
  by (simp add: days_until_due_def split: option.splits)

section \<open>Lookup by primary key\<close>

lemma filter_pk_distinct:
  "distinct (map pk xs) \<Longrightarrow> t \<in> set xs \<Longrightarrow> pk t = Some k \<Longrightarrow> filter_pk k xs = [t]"
proof (induction xs)
  case Nil
  then show ?case by simp
next
  case (Cons x xs)
  show ?case
  proof (cases "x = t")
    case True
    have "\<forall>y\<in>set xs. pk y \<noteq> Some k" using Cons.prems True by force
    then have "filter (\<lambda>y. pk y = Some k) xs = []" by (simp add: filter_empty_conv)
    then show ?thesis using True Cons.prems by (simp add: filter_pk_def)
  next
    case False
    then have "t \<in> set xs" using Cons.prems by simp
    moreover have "pk x \<noteq> Some k" using Cons.prems calculation by force
    ultimately show ?thesis using Cons by (simp add: filter_pk_def)
  qed
qed

lemma filter_pk_absent:
  "Some k \<notin> set (map pk xs) \<Longrightarrow> filter_pk k xs = []"
  by (force simp: filter_pk_def filter_empty_conv)

lemma filter_pk_user_commute:
  "filter_pk k (filter_user u xs) = filter_user u (filter_pk k xs)"
  by (auto simp: filter_pk_def filter_user_def intro: filter_cong)

lemma qs_get_order_by_meta: "qs_get (order_by_meta qs) = qs_get qs"
proof (cases qs)
  case Nil
  then show ?thesis by (simp add: order_by_meta_def)
next
  case (Cons a as)
  show ?thesis
  proof (cases as)
    case Nil
    then show ?thesis using Cons by (simp add: order_by_meta_def)
  next
    case (Cons b bs)
    have "length (order_by_meta qs) = Suc (Suc (length bs))"
      using \<open>qs = a # as\<close> Cons by (simp add: order_by_meta_def)
    then obtain x y zs where "order_by_meta qs = x # y # zs"
      by (metis length_Suc_conv)
    then show ?thesis using \<open>qs = a # as\<close> Cons by (simp add: qs_get_def)
  qed
qed

lemma filter_pk_order_by_meta:
  "filter_pk k (order_by_meta qs) = order_by_meta (filter_pk k qs)"
  by (simp add: filter_pk_def order_by_meta_def filter_sort)

lemma set_objects_filter_user:
  "set (objects_filter_user u d) = {t \<in> set (rows d). user t = Some u}"
  by (auto simp: objects_filter_user_def order_by_meta_def filter_user_def)

lemma get_object_eq_or_404:
  "get_object (get_queryset u d) k = get_object_or_404 d k u"
  by (simp add: get_object_def get_object_or_404_def get_queryset_def objects_filter_user_def
      filter_pk_order_by_meta qs_get_order_by_meta filter_pk_user_commute)

lemma get_object_or_404_found:
  "distinct (map pk (rows d)) \<Longrightarrow> t \<in> set (rows d) \<Longrightarrow> pk t = Some k \<Longrightarrow>
   get_object_or_404 d k u = (if user t = Some u then Inr t else Inl Http404)"
  by (simp add: get_object_or_404_def filter_pk_distinct filter_user_def qs_get_def)

lemma get_object_or_404_absent:
  "Some k \<notin> set (map pk (rows d)) \<Longrightarrow> get_object_or_404 d k u = Inl Http404"
  by (simp add: get_object_or_404_def filter_pk_absent filter_user_def qs_get_def)

lemma get_object_or_404_never_DoesNotExist:
  "get_object_or_404 d k u \<noteq> Inl DoesNotExist"
  by (auto simp: get_object_or_404_def split: sum.splits exn.splits)

lemma get_object_or_404_Inr:
  "get_object_or_404 d k u = Inr t \<Longrightarrow> t \<in> set (rows d) \<and> pk t = Some k \<and> user t = Some u"
proof -
  assume a: "get_object_or_404 d k u = Inr t"
  then have "filter_user u (filter_pk k (rows d)) = [t]"
    by (auto simp: get_object_or_404_def qs_get_def split: sum.splits exn.splits list.splits)
  then have "t \<in> set (filter_user u (filter_pk k (rows d)))" by simp
  then show ?thesis by (auto simp: filter_user_def filter_pk_def)
qed

section \<open>The toggle on a row of the caller\<close>

lemma distinct_pk_unique:
  "distinct (map pk xs) \<Longrightarrow> t \<in> set xs \<Longrightarrow> t' \<in> set xs \<Longrightarrow> pk t = pk t' \<Longrightarrow> t = t'"
  by (meson distinct_map inj_onD)

lemma map_replace_row:
  assumes "distinct (map pk xs)" "T \<in> set xs" "pk T = Some k"
  shows "map (\<lambda>t. if pk t = Some k then f T else t) xs
       = map (\<lambda>t. if pk t = Some k then f t else t) xs"
proof (rule map_cong [OF refl])
  fix t assume "t \<in> set xs"
  then show "(if pk t = Some k then f T else t) = (if pk t = Some k then f t else t)"
    using distinct_pk_unique [OF assms(1) _ assms(2)] assms(3) by auto
qed

lemma model_save_update:
  assumes "distinct (map pk (rows d))" "T \<in> set (rows d)" "pk T = Some k" "pk self = Some k"
  shows "model_save now self d =
     (self\<lparr>updated_at := now\<rparr>,
      d\<lparr>rows := map (\<lambda>t. if pk t = Some k then self\<lparr>updated_at := now\<rparr> else t) (rows d)\<rparr>)"
proof -
  have "Some k \<in> set (map pk (rows d))" using assms(2,3) by force
  then show ?thesis using assms(4) by (simp add: model_save_def Let_def)
qed

lemma toggle_by_owner:
  assumes "distinct (map pk (rows d))" "T \<in> set (rows d)" "pk T = Some k"
    "user T = Some u" "req_user req = Some u"
  shows "toggle_completion now req k d =
     (Redirect todo_list_url [toggle_message (toggled now T)],
      d\<lparr>rows := map (\<lambda>t. if pk t = Some k then toggled now t else t) (rows d)\<rparr>)"
proof -
  have g: "get_object_or_404 d k u = Inr T"
    using get_object_or_404_found [OF assms(1-3)] assms(4) by simp
  let ?self = "T\<lparr>completed := \<not> completed T\<rparr>"
  have s: "save now ?self d = Inr (model_save now ?self d)"
    using assms(4) by (simp add: save_def)
  have m: "model_save now ?self d =
     (toggled now T, d\<lparr>rows := map (\<lambda>t. if pk t = Some k then toggled now T else t) (rows d)\<rparr>)"
    using model_save_update [OF assms(1-3), of ?self now] assms(3) by (simp add: toggled_def)
  have r: "map (\<lambda>t. if pk t = Some k then toggled now T else t) (rows d)
         = map (\<lambda>t. if pk t = Some k then toggled now t else t) (rows d)"
    using map_replace_row [OF assms(1-3)] .
  show ?thesis
    by (simp add: toggle_completion_def login_required_def assms(5) g s m r toggle_message_def)
qed

lemma toggle_not_found:
  assumes "get_object_or_404 d k u = Inl Http404" "req_user req = Some u"
  shows "toggle_completion now req k d = (PageNotFound, d)"
  using assms by (simp add: toggle_completion_def login_required_def uncaught_def)

lemma pk_toggled [simp]: "pk (toggled now t) = pk t"
  by (simp add: toggled_def)

lemma toggled_toggled: "toggled now' (toggled now t) = t\<lparr>updated_at := now'\<rparr>"
  by (simp add: toggled_def)

lemma map_pk_toggle:
  "map pk (map (\<lambda>t. if pk t = Some k then toggled now t else t) xs) = map pk xs"
  by (induction xs) auto

section \<open>Ownership and the frame of the toggle\<close>

lemma update_not_found:
  assumes "get_object_or_404 d k u = Inl Http404" "req_user req = Some u"
  shows "TodoUpdateView now req k d = (PageNotFound, d)"
  using assms
  by (simp add: TodoUpdateView_def login_required_def uncaught_def get_object_eq_or_404)

lemma delete_not_found:
  assumes "get_object_or_404 d k u = Inl Http404" "req_user req = Some u"
  shows "TodoDeleteView req k d = (PageNotFound, d)"
  using assms
  by (simp add: TodoDeleteView_def login_required_def uncaught_def get_object_eq_or_404)

lemma model_delete_absent:
  "pk T = Some k \<Longrightarrow> Some k \<notin> set (map pk (rows (model_delete T d)))"
  by (auto simp: model_delete_def)

lemma context_todos_subset:
  "get_context_data today u params d = Inr c \<Longrightarrow>
   set (todos c) \<subseteq> set (objects_filter_user u d)"
  by (auto simp: get_context_data_def Let_def filter_completed_def filter_priority_def
      split: if_splits sum.splits)

lemma list_page_todos:
  assumes "req_user req = Some u" "fst (TodoListView now req d) = ListPage c"
  shows "set (todos c) \<subseteq> set (get_queryset u d)"
proof -
  from assms have "get_context_data (date_of now) u (GET req) d = Inr c"
    by (auto simp: TodoListView_def login_required_def uncaught_def
        split: sum.splits if_splits http_method.splits)
  then show ?thesis using context_todos_subset by (simp add: get_queryset_def)
qed

lemma dist_toggle:
  "distinct (map pk xs) \<Longrightarrow>
   distinct (map pk (map (\<lambda>t. if pk t = Some k then toggled now t else t) xs))"
  by (simp only: map_pk_toggle)

text \<open>
  Claim C1. A task \<open>T\<close> of user \<open>U\<close> is outside the query set and the list page
  of every other authenticated user \<open>V\<close>. Toggle, update and delete by \<open>V\<close> on the
  key of \<open>T\<close>, by GET or by POST, leave the table as it is and answer with the 404
  page, as they answer for a key that no row has, and not with the permission message.
\<close>

theorem foreign_task_is_not_found:
  assumes "distinct (map pk (rows d))" and "T \<in> set (rows d)" and "pk T = Some k"
    and "user T = Some U" and "req_user req = Some V" and "V \<noteq> U"
  shows "T \<notin> set (get_queryset V d) \<and>
    (\<forall>c. fst (TodoListView now req d) = ListPage c \<longrightarrow> T \<notin> set (todos c)) \<and>
    toggle_completion now req k d = (PageNotFound, d) \<and>
    TodoUpdateView now req k d = (PageNotFound, d) \<and>
    TodoDeleteView req k d = (PageNotFound, d) \<and>
    toggle_completion now req k d = (fst (toggle_completion now req k (model_delete T d)), d) \<and>
    TodoUpdateView now req k d = (fst (TodoUpdateView now req k (model_delete T d)), d) \<and>
    TodoDeleteView req k d = (fst (TodoDeleteView req k (model_delete T d)), d) \<and>
    fst (TodoDeleteView req k d) \<noteq>
      Redirect todo_list_url [(ERROR, ''You don't have permission to delete this task.'')]"
proof -
  have nf: "get_object_or_404 d k V = Inl Http404"
    using get_object_or_404_found [OF assms(1-3), of V] assms(4,6) by simp
  have nf': "get_object_or_404 (model_delete T d) k V = Inl Http404"
    using model_delete_absent [OF assms(3)] by (rule get_object_or_404_absent)
  have q: "T \<notin> set (get_queryset V d)"
    using assms(4,6) by (simp add: get_queryset_def set_objects_filter_user)
  have l: "\<forall>c. fst (TodoListView now req d) = ListPage c \<longrightarrow> T \<notin> set (todos c)"
    using list_page_todos [OF assms(5)] q by blast
  have t: "toggle_completion now req k d = (PageNotFound, d)"
    using nf assms(5) by (rule toggle_not_found)
  have t': "fst (toggle_completion now req k (model_delete T d)) = PageNotFound"
    using toggle_not_found [OF nf' assms(5)] by simp
  have u: "TodoUpdateView now req k d = (PageNotFound, d)"
    using nf assms(5) by (rule update_not_found)
  have u': "fst (TodoUpdateView now req k (model_delete T d)) = PageNotFound"
    using update_not_found [OF nf' assms(5)] by simp
  have dl: "TodoDeleteView req k d = (PageNotFound, d)"
    using nf assms(5) by (rule delete_not_found)
  have dl': "fst (TodoDeleteView req k (model_delete T d)) = PageNotFound"
    using delete_not_found [OF nf' assms(5)] by simp
  have p: "fst (TodoDeleteView req k d) \<noteq>
      Redirect todo_list_url [(ERROR, ''You don't have permission to delete this task.'')]"
    by (simp add: dl)
  show ?thesis using q l t t' u u' dl dl' p by simp
qed

text \<open>
  Claim C10. A toggle by the owner replaces the row of the task by a row that differs in
  \<open>completed\<close> and \<open>updated_at\<close> only: title, description, priority, due date,
  creation time, owner and key are those of the task before, and no other row and not
  the key sequence changes.
\<close>

theorem toggle_changes_only_completed:
  assumes "distinct (map pk (rows d))" and "T \<in> set (rows d)" and "pk T = Some k"
    and "user T = Some u" and "req_user req = Some u"
  shows "\<exists>T' msgs.
    toggle_completion now req k d =
      (Redirect todo_list_url msgs,
       \<lparr>rows = map (\<lambda>t. if pk t = Some k then T' else t) (rows d), next_pk = next_pk d\<rparr>) \<and>
    get_object_or_404 (snd (toggle_completion now req k d)) k u = Inr T' \<and>
    completed T' = (\<not> completed T) \<and> updated_at T' = now \<and>
    title T' = title T \<and> description T' = description T \<and> priority T' = priority T \<and>
    due_date T' = due_date T \<and> created_at T' = created_at T \<and> user T' = user T \<and>
    pk T' = pk T"
proof -
  let ?d' = "d\<lparr>rows := map (\<lambda>t. if pk t = Some k then toggled now t else t) (rows d)\<rparr>"
  have tg: "toggle_completion now req k d =
      (Redirect todo_list_url [toggle_message (toggled now T)], ?d')"
    using assms by (rule toggle_by_owner)
  have r: "map (\<lambda>t. if pk t = Some k then toggled now t else t) (rows d)
         = map (\<lambda>t. if pk t = Some k then toggled now T else t) (rows d)"
    using map_replace_row [OF assms(1-3), of "toggled now"] by simp
  have dist: "distinct (map pk (rows ?d'))"
    using dist_toggle [OF assms(1)] by (simp del: map_map)
  have mem: "toggled now T \<in> set (rows ?d')" using assms(2,3) by force
  have g: "get_object_or_404 ?d' k u = Inr (toggled now T)"
    using get_object_or_404_found [OF dist mem, of k u] assms(3,4) by (simp add: toggled_def)
  have eq: "?d' = \<lparr>rows = map (\<lambda>t. if pk t = Some k then toggled now T else t) (rows d),
      next_pk = next_pk d\<rparr>"
    using r by simp
  show ?thesis
    apply (rule exI [of _ "toggled now T"])
    apply (rule exI [of _ "[toggle_message (toggled now T)]"])
    using tg g eq by (simp add: toggled_def)
qed

text \<open>
  Claim C7. Two toggles by the owner, one after the other, return \<open>completed\<close> to
  its value before: the first negates it, after the second the row is the original one
  up to \<open>updated_at\<close>, and so is the whole table.
\<close>

theorem toggle_twice_restores_completed:
  assumes "distinct (map pk (rows d))" and "T \<in> set (rows d)" and "pk T = Some k"
    and "user T = Some u" and "req_user req = Some u" and "req_user req' = Some u"
  shows "\<exists>T1 T2.
    get_object_or_404 (snd (toggle_completion now req k d)) k u = Inr T1 \<and>
    completed T1 = (\<not> completed T) \<and>
    get_object_or_404
      (snd (toggle_completion now' req' k (snd (toggle_completion now req k d)))) k u = Inr T2 \<and>
    completed T2 = completed T \<and> T2 = T\<lparr>updated_at := now'\<rparr> \<and>
    rows (snd (toggle_completion now' req' k (snd (toggle_completion now req k d))))
      = map (\<lambda>t. if pk t = Some k then t\<lparr>updated_at := now'\<rparr> else t) (rows d)"
proof -
  let ?r1 = "map (\<lambda>t. if pk t = Some k then toggled now t else t) (rows d)"
  let ?d1 = "d\<lparr>rows := ?r1\<rparr>"
  let ?r2 = "map (\<lambda>t. if pk t = Some k then toggled now' t else t) ?r1"
  let ?d2 = "?d1\<lparr>rows := ?r2\<rparr>"
  have t1: "snd (toggle_completion now req k d) = ?d1"
    using toggle_by_owner [OF assms(1-5), of now] by simp
  have dist1: "distinct (map pk (rows ?d1))"
    using dist_toggle [OF assms(1)] by (simp del: map_map)
  have mem1: "toggled now T \<in> set (rows ?d1)" using assms(2,3) by force
  have own1: "user (toggled now T) = Some u" "pk (toggled now T) = Some k"
    using assms(3,4) by (simp_all add: toggled_def)
  have g1: "get_object_or_404 ?d1 k u = Inr (toggled now T)"
    using get_object_or_404_found [OF dist1 mem1 own1(2), of u] own1(1) by simp
  have t2: "snd (toggle_completion now' req' k ?d1) = ?d2"
    using toggle_by_owner [OF dist1 mem1 own1(2) own1(1) assms(6), of now'] by simp
  have r2: "?r2 = map (\<lambda>t. if pk t = Some k then t\<lparr>updated_at := now'\<rparr> else t) (rows d)"
    by (auto simp: toggled_toggled)
  have dist2: "distinct (map pk (rows ?d2))"
    using dist_toggle [OF dist1] by (simp del: map_map)
  have mem2: "T\<lparr>updated_at := now'\<rparr> \<in> set (rows ?d2)"
    using assms(2,3) by (simp only: db.simps db.update_convs r2) force
  have g2: "get_object_or_404 ?d2 k u = Inr (T\<lparr>updated_at := now'\<rparr>)"
    using get_object_or_404_found [OF dist2 mem2, of k u] assms(3,4) by simp
  show ?thesis
    apply (rule exI [of _ "toggled now T"])
    apply (rule exI [of _ "T\<lparr>updated_at := now'\<rparr>"])
    apply (simp only: t1 t2 g1 g2)
    apply (simp add: toggled_def r2 [unfolded toggled_def])
    done
qed

section \<open>Every row has an owner\<close>

lemma model_save_owned:
  "user self \<noteq> None \<Longrightarrow> owned d \<Longrightarrow> owned (snd (model_save now self d))"
  by (auto simp: model_save_def owned_def Let_def list_all_iff split: option.splits)

lemma save_owned:
  "save now self d = Inr (s', d') \<Longrightarrow> user self \<noteq> None \<Longrightarrow> owned d \<Longrightarrow> owned d'"
  using model_save_owned [of self d now] by (auto simp: save_def split: if_splits)

lemma model_delete_owned: "owned d \<Longrightarrow> owned (model_delete t d)"
  by (simp add: owned_def model_delete_def list_all_iff)

lemma user_construct_instance [simp]: "user (construct_instance c t) = user t"
  by (simp add: construct_instance_def)

lemma pk_construct_instance [simp]: "pk (construct_instance c t) = pk t"
  by (simp add: construct_instance_def)

lemma list_view_db: "snd (TodoListView now req d) = d"
  by (simp add: TodoListView_def login_required_def
      split: option.splits sum.splits http_method.splits)

lemma create_owned: "owned d \<Longrightarrow> owned (snd (TodoCreateView now req d))"
proof -
  assume o: "owned d"
  show ?thesis
  proof (cases "req_user req")
    case None
    then show ?thesis using o by (simp add: TodoCreateView_def login_required_def)
  next
    case (Some u)
    show ?thesis
    proof (cases "http_method req")
      case Get
      then show ?thesis using o Some by (simp add: TodoCreateView_def login_required_def)
    next
      case Post
      show ?thesis
      proof (cases "full_clean (date_of now) (POST req)")
        case (Inl errs)
        then show ?thesis using o Some Post by (simp add: TodoCreateView_def login_required_def)
      next
        case (Inr c)
        let ?inst = "(construct_instance c new_todo)\<lparr>user := Some u\<rparr>"
        show ?thesis
        proof (cases "save now ?inst d")
          case (Inl e)
          then show ?thesis using o Some Post Inr
            by (simp add: TodoCreateView_def login_required_def)
        next
          case sv: (Inr p)
          obtain s' d' where p: "p = (s', d')" by (cases p)
          have "owned d'" using save_owned [OF sv [unfolded p] _ o] by simp
          then show ?thesis using Some Post Inr sv p
            by (simp add: TodoCreateView_def login_required_def)
        qed
      qed
    qed
  qed
qed

lemma update_owned: "owned d \<Longrightarrow> owned (snd (TodoUpdateView now req k d))"
proof -
  assume o: "owned d"
  show ?thesis
  proof (cases "req_user req")
    case None
    then show ?thesis using o by (simp add: TodoUpdateView_def login_required_def)
  next
    case (Some u)
    show ?thesis
    proof (cases "get_object_or_404 d k u")
      case (Inl e)
      then show ?thesis using o Some
        by (simp add: TodoUpdateView_def login_required_def get_object_eq_or_404)
    next
      case ob: (Inr obj)
      have uo: "user obj = Some u" using get_object_or_404_Inr [OF ob] by simp
      show ?thesis
      proof (cases "http_method req")
        case Get
        then show ?thesis using o Some ob
          by (simp add: TodoUpdateView_def login_required_def get_object_eq_or_404)
      next
        case Post
        show ?thesis
        proof (cases "full_clean (date_of now) (POST req)")
          case (Inl errs)
          then show ?thesis using o Some ob Post
            by (simp add: TodoUpdateView_def login_required_def get_object_eq_or_404)
        next
          case (Inr c)
          show ?thesis
          proof (cases "save now (construct_instance c obj) d")
            case (Inl e)
            then show ?thesis using o Some ob Post Inr
              by (simp add: TodoUpdateView_def login_required_def get_object_eq_or_404)
          next
            case sv: (Inr p)
            obtain s' d' where p: "p = (s', d')" by (cases p)
            have "owned d'" using save_owned [OF sv [unfolded p] _ o] uo by simp
            then show ?thesis using Some ob Post Inr sv p
              by (simp add: TodoUpdateView_def login_required_def get_object_eq_or_404)
          qed
        qed
      qed
    qed
  qed
qed

lemma delete_owned: "owned d \<Longrightarrow> owned (snd (TodoDeleteView req k d))"
  by (auto simp: TodoDeleteView_def login_required_def model_delete_owned
      split: option.splits http_method.splits sum.splits)

lemma toggle_owned: "owned d \<Longrightarrow> owned (snd (toggle_completion now req k d))"
proof -
  assume o: "owned d"
  show ?thesis
  proof (cases "req_user req")
    case None
    then show ?thesis using o by (simp add: toggle_completion_def login_required_def)
  next
    case (Some u)
    show ?thesis
    proof (cases "get_object_or_404 d k u")
      case (Inl e)
      then show ?thesis using o Some by (simp add: toggle_completion_def login_required_def)
    next
      case ob: (Inr obj)
      have uo: "user obj = Some u" using get_object_or_404_Inr [OF ob] by simp
      show ?thesis
      proof (cases "save now (obj\<lparr>completed := \<not> completed obj\<rparr>) d")
        case (Inl e)
        then show ?thesis using o Some ob by (simp add: toggle_completion_def login_required_def)
      next
        case sv: (Inr p)
        obtain s' d' where p: "p = (s', d')" by (cases p)
        have "owned d'" using save_owned [OF sv [unfolded p] _ o] uo by simp
        then show ?thesis using Some ob sv p
          by (simp add: toggle_completion_def login_required_def)
      qed
    qed
  qed
qed

lemma dispatch_owned: "owned d \<Longrightarrow> owned (snd (dispatch now r req d))"
  by (cases r)
    (simp_all add: dispatch_def list_view_db create_owned update_owned delete_owned toggle_owned)

lemma run_owned: "owned d \<Longrightarrow> owned (run reqs d)"
  by (induction reqs arbitrary: d) (auto simp: dispatch_owned)

lemma owned_empty: "owned empty_db"
  by (simp add: owned_def empty_db_def)

text \<open>
  Claim C2. After any sequence of requests to the list, create, update, delete and toggle
  routes, by any users and from the empty table, every row has an owner; the requests
  keep the property from any table that has it; and \<open>Todo.save\<close> refuses a new
  instance without an owner.
\<close>

theorem persisted_task_has_owner:
  "list_all (\<lambda>t. user t \<noteq> None) (rows (run reqs empty_db)) \<and>
   (list_all (\<lambda>t. user t \<noteq> None) (rows d) \<longrightarrow>
      list_all (\<lambda>t. user t \<noteq> None) (rows (run reqs d))) \<and>
   save now (t\<lparr>pk := None, user := None\<rparr>) d = Inl ValueError"
  using run_owned [of empty_db reqs] run_owned [of d reqs] owned_empty
  by (simp add: owned_def save_def)

section \<open>The example table\<close>

lemma strip_milk: "strip ''  buy milk '' = ''buy milk''"
  by (simp add: strip_def lstrip_def rstrip_def isspace_def)

lemma full_clean_milk:
  "full_clean today milk_form =
     Inr \<lparr>cleaned_title = ''buy milk'', cleaned_description = [], cleaned_priority = 3,
          cleaned_due_date = None\<rparr>"
  by (simp add: full_clean_def milk_form_def clean_field_title_def title_field_clean_def
      clean_title_def strip_milk priority_field_clean_def PRIORITY_CHOICES_def
      clean_due_date_def description_field_clean_def Let_def)
    (simp add: strip_def lstrip_def rstrip_def isspace_def)

lemma create_milk:
  "TodoCreateView 100 (post_by 1) empty_db =
     (Redirect todo_list_url [(SUCCESS, ''Task '' @ quoted ''buy milk'' @ '' created successfully!'')],
      one_task_db)"
  by (simp add: TodoCreateView_def login_required_def post_by_def full_clean_milk
      construct_instance_def new_todo_def save_def model_save_def empty_db_def
      one_task_db_def milk_def Let_def)

lemma run_create_milk: "run [(100, todo_create, post_by 1)] empty_db = one_task_db"
  by (simp only: run.simps dispatch_def route.case create_milk snd_conv)

lemma one_task_db_facts:
  "distinct (map pk (rows one_task_db))" "milk \<in> set (rows one_task_db)"
  "pk milk = Some 1" "user milk = Some 1"
  by (simp_all add: one_task_db_def milk_def)

theorem persisted_task_has_owner_witness:
  "list_all (\<lambda>t. user t \<noteq> None) (rows one_task_db) \<and>
   list_all (\<lambda>t. user t \<noteq> None) (rows (run [(200, todo_toggle 1, post_by 1)] one_task_db)) \<and>
   list_all (\<lambda>t. user t \<noteq> None) (rows (run [(100, todo_create, post_by 1)] empty_db)) \<and>
   rows (run [(100, todo_create, post_by 1)] empty_db) = [milk]"
proof -
  have h: "list_all (\<lambda>t. user t \<noteq> None) (rows one_task_db)"
    by (simp add: one_task_db_def milk_def)
  have r: "rows (run [(100, todo_create, post_by 1)] empty_db) = [milk]"
    by (simp only: run_create_milk one_task_db_def db.simps)
  show ?thesis
    using h r persisted_task_has_owner [of "[(200, todo_toggle 1, post_by 1)]" one_task_db]
      persisted_task_has_owner [of "[(100, todo_create, post_by 1)]" one_task_db]
    by simp
qed

theorem foreign_task_is_not_found_witness:
  "distinct (map pk (rows one_task_db)) \<and> milk \<in> set (rows one_task_db) \<and>
   pk milk = Some 1 \<and> user milk = Some 1 \<and>
   req_user (get_by 2) = Some 2 \<and> req_user (post_by 2) = Some 2 \<and> (2::nat) \<noteq> 1 \<and>
   milk \<notin> set (get_queryset 2 one_task_db) \<and>
   (\<exists>c. fst (TodoListView 200 (get_by 2) one_task_db) = ListPage c \<and> milk \<notin> set (todos c)) \<and>
   toggle_completion 200 (post_by 2) 1 one_task_db = (PageNotFound, one_task_db) \<and>
   TodoUpdateView 200 (post_by 2) 1 one_task_db = (PageNotFound, one_task_db) \<and>
   TodoUpdateView 200 (get_by 2) 1 one_task_db = (PageNotFound, one_task_db) \<and>
   TodoDeleteView (post_by 2) 1 one_task_db = (PageNotFound, one_task_db) \<and>
   TodoDeleteView (get_by 2) 1 one_task_db = (PageNotFound, one_task_db)"
proof -
  have r: "req_user (post_by 2) = Some 2" "req_user (get_by 2) = Some 2"
    by (simp_all add: post_by_def get_by_def)
  have n: "(2::nat) \<noteq> 1" by simp
  have l: "\<exists>c. fst (TodoListView 200 (get_by 2) one_task_db) = ListPage c"
    by (simp add: TodoListView_def login_required_def get_by_def get_context_data_def
        dict_get_def Let_def)
  show ?thesis
    using foreign_task_is_not_found [OF one_task_db_facts r(1) n, of 200]
      foreign_task_is_not_found [OF one_task_db_facts r(2) n, of 200]
      one_task_db_facts r n l
    by auto
qed

theorem toggle_changes_only_completed_witness:
  "distinct (map pk (rows one_task_db)) \<and> milk \<in> set (rows one_task_db) \<and>
   pk milk = Some 1 \<and> user milk = Some 1 \<and> req_user (post_by 1) = Some 1 \<and>
   (\<exists>T'. get_object_or_404 (snd (toggle_completion 200 (post_by 1) 1 one_task_db)) 1 1 = Inr T' \<and>
      completed T' \<and> updated_at T' = 200 \<and> title T' = ''buy milk'' \<and>
      description T' = Some [] \<and> priority T' = 3 \<and> due_date T' = None \<and>
      created_at T' = 100 \<and> user T' = Some 1 \<and> pk T' = Some 1)"
proof -
  have r: "req_user (post_by 1) = Some 1" by (simp add: post_by_def)
  have m: "completed milk = False" "title milk = ''buy milk''" "description milk = Some []"
    "priority milk = 3" "due_date milk = None" "created_at milk = 100"
    by (simp_all add: milk_def)
  show ?thesis
    using toggle_changes_only_completed [OF one_task_db_facts r, of 200] one_task_db_facts r m
    by auto
qed

theorem toggle_twice_restores_completed_witness:
  "distinct (map pk (rows one_task_db)) \<and> milk \<in> set (rows one_task_db) \<and>
   pk milk = Some 1 \<and> user milk = Some 1 \<and> req_user (post_by 1) = Some 1 \<and>
   get_object_or_404
     (snd (toggle_completion 300 (post_by 1) 1
        (snd (toggle_completion 200 (post_by 1) 1 one_task_db)))) 1 1
     = Inr (milk\<lparr>updated_at := 300\<rparr>) \<and>
   completed (milk\<lparr>updated_at := 300\<rparr>) = completed milk"
proof -
  have r: "req_user (post_by 1) = Some 1" by (simp add: post_by_def)
  show ?thesis
    using toggle_twice_restores_completed [OF one_task_db_facts r r, of 200 300]
      one_task_db_facts r
    by auto
qed

section \<open>Validation in the create and the update view\<close>

lemma save_with_owner:
  "user self = Some u \<Longrightarrow> save now self d = Inr (model_save now self d)"
  by (simp add: save_def)

lemma create_post:
  assumes "req_user req = Some u" and "http_method req = Post"
  shows "TodoCreateView now req d =
     (case full_clean (date_of now) (POST req) of
        Inl errs \<Rightarrow> (FormPage errs, d)
      | Inr c \<Rightarrow>
          (Redirect todo_list_url
             [(SUCCESS, ''Task '' @ quoted (cleaned_title c) @ '' created successfully!'')],
           \<lparr>rows = rows d @
              [\<lparr>pk = Some (next_pk d), user = Some u, title = cleaned_title c,
                description = Some (cleaned_description c), completed = False,
                priority = cleaned_priority c, due_date = cleaned_due_date c,
                created_at = now, updated_at = now\<rparr>],
            next_pk = Suc (next_pk d)\<rparr>))"
  using assms
  by (simp add: TodoCreateView_def login_required_def save_with_owner model_save_def
      construct_instance_def new_todo_def Let_def split: sum.splits)

lemma update_post:
  assumes "distinct (map pk (rows d))" and "T \<in> set (rows d)" and "pk T = Some k"
    and "user T = Some u" and "req_user req = Some u" and "http_method req = Post"
  shows "TodoUpdateView now req k d =
     (case full_clean (date_of now) (POST req) of
        Inl errs \<Rightarrow> (FormPage errs, d)
      | Inr c \<Rightarrow>
          (Redirect todo_list_url
             [(SUCCESS, ''Task '' @ quoted (cleaned_title c) @ '' updated successfully!'')],
           d\<lparr>rows := map (\<lambda>t. if pk t = Some k
                  then (construct_instance c T)\<lparr>updated_at := now\<rparr> else t) (rows d)\<rparr>))"
proof -
  have g: "get_object (get_queryset u d) k = Inr T"
    using get_object_or_404_found [OF assms(1-3), of u] assms(4)
    by (simp add: get_object_eq_or_404)
  show ?thesis
  proof (cases "full_clean (date_of now) (POST req)")
    case (Inl errs)
    then show ?thesis using g assms(5,6) by (simp add: TodoUpdateView_def login_required_def)
  next
    case (Inr c)
    have s: "save now (construct_instance c T) d = Inr (model_save now (construct_instance c T) d)"
      using assms(4) by (simp add: save_with_owner)
    have m: "model_save now (construct_instance c T) d =
       ((construct_instance c T)\<lparr>updated_at := now\<rparr>,
        d\<lparr>rows := map (\<lambda>t. if pk t = Some k
               then (construct_instance c T)\<lparr>updated_at := now\<rparr> else t) (rows d)\<rparr>)"
      using model_save_update [OF assms(1-3), of "construct_instance c T" now] assms(3) by simp
    show ?thesis using g assms(5,6) Inr s m
      by (simp add: TodoUpdateView_def login_required_def construct_instance_def)
  qed
qed

lemma due_date_rejected_full_clean:
  "due_date_rejected
     (fst (case full_clean today fd of Inl errs \<Rightarrow> (FormPage errs, d) | Inr c \<Rightarrow> (Redirect url (m c), e c)))
   = (\<exists>dd. data_due_date fd = Some dd \<and> dd < today)"
  using full_clean_due_date [of today fd]
  by (simp add: due_date_rejected_def split: sum.splits)

text \<open>
  Claim C3. The due date is rejected exactly when it is set and earlier than the current
  date: yesterday is rejected, today and an absent date are accepted, and so is every
  later date. The create and the update view reject a submitted due date, with the error
  on the form page, in exactly this case.
\<close>

theorem due_date_rejected_iff_in_past:
  "(clean_due_date today dd = Inl DueDateInPast \<longleftrightarrow> (\<exists>d. dd = Some d \<and> d < today)) \<and>
   (clean_due_date today dd = Inr dd \<longleftrightarrow> \<not> (\<exists>d. dd = Some d \<and> d < today)) \<and>
   clean_due_date today (Some (today - 1)) = Inl DueDateInPast \<and>
   clean_due_date today (Some today) = Inr (Some today) \<and>
   clean_due_date today None = Inr None \<and>
   clean_due_date today (Some (today + int n)) = Inr (Some (today + int n)) \<and>
   (case full_clean today fd of
      Inl errs \<Rightarrow> (''due_date'', DueDateInPast) \<in> set errs
    | Inr c \<Rightarrow> False) = (\<exists>d. data_due_date fd = Some d \<and> d < today) \<and>
   (req_user req = Some u \<and> http_method req = Post \<longrightarrow>
      due_date_rejected (fst (TodoCreateView now req d))
      = (\<exists>dd. data_due_date (POST req) = Some dd \<and> dd < date_of now)) \<and>
   (distinct (map pk (rows d)) \<and> T \<in> set (rows d) \<and> pk T = Some k \<and> user T = Some u \<and>
    req_user req = Some u \<and> http_method req = Post \<longrightarrow>
      due_date_rejected (fst (TodoUpdateView now req k d))
      = (\<exists>dd. data_due_date (POST req) = Some dd \<and> dd < date_of now))"
proof -
  have a: "clean_due_date today dd = Inl DueDateInPast \<longleftrightarrow> (\<exists>d. dd = Some d \<and> d < today)"
    by (simp add: clean_due_date_Inl)
  have b: "clean_due_date today dd = Inr dd \<longleftrightarrow> \<not> (\<exists>d. dd = Some d \<and> d < today)"
    by (auto simp: clean_due_date_Inr)
  have c: "clean_due_date today (Some (today - 1)) = Inl DueDateInPast"
    "clean_due_date today (Some today) = Inr (Some today)"
    "clean_due_date today None = Inr None"
    "clean_due_date today (Some (today + int n)) = Inr (Some (today + int n))"
    by (simp_all add: clean_due_date_def)
  have cr: "req_user req = Some u \<and> http_method req = Post \<longrightarrow>
      due_date_rejected (fst (TodoCreateView now req d))
      = (\<exists>dd. data_due_date (POST req) = Some dd \<and> dd < date_of now)"
    by (auto simp only: create_post due_date_rejected_full_clean)
  have up: "distinct (map pk (rows d)) \<and> T \<in> set (rows d) \<and> pk T = Some k \<and> user T = Some u \<and>
    req_user req = Some u \<and> http_method req = Post \<longrightarrow>
      due_date_rejected (fst (TodoUpdateView now req k d))
      = (\<exists>dd. data_due_date (POST req) = Some dd \<and> dd < date_of now)"
    by (auto simp only: update_post due_date_rejected_full_clean)
  show ?thesis using a b c full_clean_due_date [of today fd] cr up by blast
qed

theorem due_date_rejected_iff_in_past_witness:
  "req_user (post_late_by 1) = Some 1 \<and> http_method (post_late_by 1) = Post \<and>
   distinct (map pk (rows one_task_db)) \<and> milk \<in> set (rows one_task_db) \<and>
   pk milk = Some 1 \<and> user milk = Some 1 \<and>
   data_due_date (POST (post_late_by 1)) = Some (date_of 100 - 1) \<and>
   due_date_rejected (fst (TodoCreateView 100 (post_late_by 1) one_task_db)) \<and>
   due_date_rejected (fst (TodoUpdateView 100 (post_late_by 1) 1 one_task_db)) \<and>
   req_user (post_by 1) = Some 1 \<and> http_method (post_by 1) = Post \<and>
   \<not> due_date_rejected (fst (TodoCreateView 100 (post_by 1) one_task_db))"
proof -
  have r: "req_user (post_late_by 1) = Some 1" "http_method (post_late_by 1) = Post"
    "data_due_date (POST (post_late_by 1)) = Some (date_of 100 - 1)"
    by (simp_all add: post_late_by_def late_form_def date_of_def)
  have r': "req_user (post_by 1) = Some 1" "http_method (post_by 1) = Post"
    "data_due_date (POST (post_by 1)) = None"
    by (simp_all add: post_by_def milk_form_def)
  show ?thesis
    using due_date_rejected_iff_in_past
        [of _ _ _ _ "post_late_by 1" 1 100 one_task_db milk 1]
      due_date_rejected_iff_in_past [of _ _ _ _ "post_by 1" 1 100 one_task_db milk 1]
      one_task_db_facts r r'
    by simp
qed

section \<open>The title\<close>

lemma clean_title_eq:
  "clean_title (Some s) = (if length (strip s) < 3 then Inl TitleTooShort else Inr (strip s))"
  by (simp add: clean_title_def Let_def)

lemma strip_ab: "strip ''ab'' = ''ab''" "strip ''abc'' = ''abc''"
  by (simp_all add: strip_def lstrip_def rstrip_def isspace_def)

text \<open>
  The whole cleaning of the title field: the generated field rejects an empty, an
  overlong and a null-containing title before \<open>clean_title\<close> runs.
\<close>

lemma clean_field_title_Inl:
  "(\<exists>e. clean_field_title raw = Inl e) \<longleftrightarrow>
     length (strip raw) < 3 \<or> 200 < length (strip raw) \<or> CHR 0x00 \<in> set (strip raw)"
  by (auto simp: clean_field_title_def title_field_clean_def clean_title_def Let_def
      strip_strip split: sum.splits if_splits)

lemma full_clean_title:
  "full_clean today fd = Inr c \<Longrightarrow>
     cleaned_title c = strip (data_title fd) \<and> 3 \<le> length (strip (data_title fd))"
  using clean_field_title_Inr by (auto simp: full_clean_Inr)

text \<open>
  Claim C4. \<open>clean_title\<close> trims the title (the result is the submitted text without
  a whitespace prefix and suffix, and neither starts nor ends with whitespace) and
  rejects it exactly when the trimmed length is below 3: "ab" is rejected, "abc" is
  accepted. A submission that the form accepts is stored with the trimmed title, by the
  create view in the new row and by the update view in the row of the task.
\<close>

theorem title_trimmed_and_at_least_three:
  "clean_title (Some s) = (if length (strip s) < 3 then Inl TitleTooShort else Inr (strip s)) \<and>
   (clean_title (Some s) = Inl TitleTooShort \<longleftrightarrow> length (strip s) < 3) \<and>
   (\<exists>a b. s = a @ strip s @ b \<and> list_all isspace a \<and> list_all isspace b) \<and>
   (strip s \<noteq> [] \<longrightarrow> \<not> isspace (hd (strip s)) \<and> \<not> isspace (last (strip s))) \<and>
   clean_title (Some ''ab'') = Inl TitleTooShort \<and>
   clean_title (Some ''abc'') = Inr ''abc'' \<and>
   (req_user req = Some u \<and> http_method req = Post \<and>
    full_clean (date_of now) (POST req) = Inr c \<longrightarrow>
      (\<exists>obj. rows (snd (TodoCreateView now req d)) = rows d @ [obj] \<and>
         title obj = strip (data_title (POST req)) \<and> 3 \<le> length (title obj))) \<and>
   (distinct (map pk (rows d)) \<and> T \<in> set (rows d) \<and> pk T = Some k \<and> user T = Some u \<and>
    req_user req = Some u \<and> http_method req = Post \<and>
    full_clean (date_of now) (POST req) = Inr c \<longrightarrow>
      (\<exists>obj. get_object_or_404 (snd (TodoUpdateView now req k d)) k u = Inr obj \<and>
         title obj = strip (data_title (POST req)) \<and> 3 \<le> length (title obj)))"
proof -
  have a: "clean_title (Some s) = (if length (strip s) < 3 then Inl TitleTooShort else Inr (strip s))"
    by (rule clean_title_eq)
  have b: "clean_title (Some s) = Inl TitleTooShort \<longleftrightarrow> length (strip s) < 3"
    by (simp add: clean_title_eq)
  have e: "strip s \<noteq> [] \<longrightarrow> \<not> isspace (hd (strip s)) \<and> \<not> isspace (last (strip s))"
    using strip_ends by blast
  have x: "clean_title (Some ''ab'') = Inl TitleTooShort" "clean_title (Some ''abc'') = Inr ''abc''"
    by (simp_all only: clean_title_eq strip_ab) simp_all
  have cr: "req_user req = Some u \<and> http_method req = Post \<and>
    full_clean (date_of now) (POST req) = Inr c \<longrightarrow>
      (\<exists>obj. rows (snd (TodoCreateView now req d)) = rows d @ [obj] \<and>
         title obj = strip (data_title (POST req)) \<and> 3 \<le> length (title obj))"
  proof
    assume h: "req_user req = Some u \<and> http_method req = Post \<and>
      full_clean (date_of now) (POST req) = Inr c"
    then have t: "cleaned_title c = strip (data_title (POST req))"
      "3 \<le> length (strip (data_title (POST req)))"
      using full_clean_title by blast+
    show "\<exists>obj. rows (snd (TodoCreateView now req d)) = rows d @ [obj] \<and>
         title obj = strip (data_title (POST req)) \<and> 3 \<le> length (title obj)"
      using h t by (simp add: create_post)
  qed
  have up: "distinct (map pk (rows d)) \<and> T \<in> set (rows d) \<and> pk T = Some k \<and> user T = Some u \<and>
    req_user req = Some u \<and> http_method req = Post \<and>
    full_clean (date_of now) (POST req) = Inr c \<longrightarrow>
      (\<exists>obj. get_object_or_404 (snd (TodoUpdateView now req k d)) k u = Inr obj \<and>
         title obj = strip (data_title (POST req)) \<and> 3 \<le> length (title obj))"
  proof
    assume h: "distinct (map pk (rows d)) \<and> T \<in> set (rows d) \<and> pk T = Some k \<and>
      user T = Some u \<and> req_user req = Some u \<and> http_method req = Post \<and>
      full_clean (date_of now) (POST req) = Inr c"
    then have t: "cleaned_title c = strip (data_title (POST req))"
      "3 \<le> length (strip (data_title (POST req)))"
      using full_clean_title by blast+
    let ?T' = "(construct_instance c T)\<lparr>updated_at := now\<rparr>"
    let ?rs = "map (\<lambda>t. if pk t = Some k then ?T' else t) (rows d)"
    have d': "snd (TodoUpdateView now req k d) = d\<lparr>rows := ?rs\<rparr>"
      using h update_post [of d T k u req now] by simp
    have pks: "map pk ?rs = map pk (rows d)"
      using h by (induction "rows d") (auto simp: comp_def intro!: map_cong)
    have dist: "distinct (map pk (rows (d\<lparr>rows := ?rs\<rparr>)))"
      using h pks by (simp del: map_map)
    have mem: "?T' \<in> set (rows (d\<lparr>rows := ?rs\<rparr>))" using h by force
    have g: "get_object_or_404 (d\<lparr>rows := ?rs\<rparr>) k u = Inr ?T'"
      using get_object_or_404_found [OF dist mem, of k u] h by simp
    show "\<exists>obj. get_object_or_404 (snd (TodoUpdateView now req k d)) k u = Inr obj \<and>
         title obj = strip (data_title (POST req)) \<and> 3 \<le> length (title obj)"
      using g t by (simp add: d' construct_instance_def)
  qed
  show ?thesis using a b strip_decomp [of s] e x cr up by blast
qed

theorem title_trimmed_and_at_least_three_witness:
  "strip ''  buy milk '' = ''buy milk'' \<and> strip ''  buy milk '' \<noteq> [] \<and>
   \<not> isspace (hd (strip ''  buy milk '')) \<and> \<not> isspace (last (strip ''  buy milk '')) \<and>
   req_user (post_by 1) = Some 1 \<and> http_method (post_by 1) = Post \<and>
   full_clean (date_of 100) (POST (post_by 1)) =
     Inr \<lparr>cleaned_title = ''buy milk'', cleaned_description = [], cleaned_priority = 3,
          cleaned_due_date = None\<rparr> \<and>
   distinct (map pk (rows one_task_db)) \<and> milk \<in> set (rows one_task_db) \<and>
   pk milk = Some 1 \<and> user milk = Some 1 \<and>
   (\<exists>obj. rows (snd (TodoCreateView 100 (post_by 1) one_task_db)) = rows one_task_db @ [obj] \<and>
      title obj = ''buy milk'') \<and>
   (\<exists>obj. get_object_or_404 (snd (TodoUpdateView 100 (post_by 1) 1 one_task_db)) 1 1 = Inr obj \<and>
      title obj = ''buy milk'')"
proof -
  have r: "req_user (post_by 1) = Some 1" "http_method (post_by 1) = Post"
    "POST (post_by 1) = milk_form" "data_title milk_form = ''  buy milk ''"
    by (simp_all add: post_by_def milk_form_def)
  have ne: "strip ''  buy milk '' \<noteq> []" by (simp add: strip_milk)
  have f: "full_clean (date_of 100) (POST (post_by 1)) =
     Inr \<lparr>cleaned_title = ''buy milk'', cleaned_description = [], cleaned_priority = 3,
          cleaned_due_date = None\<rparr>"
    by (simp only: r full_clean_milk)
  show ?thesis
    using title_trimmed_and_at_least_three
        [of "''  buy milk ''" "post_by 1" 1 100
          "\<lparr>cleaned_title = ''buy milk'', cleaned_description = [], cleaned_priority = 3,
            cleaned_due_date = None\<rparr>" one_task_db milk 1]
      one_task_db_facts r ne f strip_milk
    by simp blast
qed

section \<open>The list view\<close>

lemma horner_decimal:
  "foldl (\<lambda>acc c. 10 * acc + (int (of_char c) - 48)) a s = a * 10 ^ length s + decimal_value s"
  by (induction s arbitrary: a) (simp_all add: algebra_simps)

lemma int_of_digits_decimal:
  "list_all isdecimal_char s \<Longrightarrow> length s \<le> int_max_str_digits \<Longrightarrow>
   int_of_digits s = Inr (decimal_value s)"
  by (simp add: int_of_digits_def horner_decimal)

lemma int_of_digits_raises:
  "\<not> list_all isdecimal_char s \<or> int_max_str_digits < length s \<Longrightarrow>
   int_of_digits s = Inl ValueError"
  by (auto simp: int_of_digits_def)

lemma isdigit_decimal: "s \<noteq> [] \<Longrightarrow> list_all isdecimal_char s \<Longrightarrow> isdigit s"
  by (simp add: isdigit_def isdigit_char_def list_all_iff)

lemma count_ones: "sum_list (map (\<lambda>t. Suc 0) xs) = length xs"
  by (induction xs) simp_all

lemma filter_order_by_meta: "filter P (order_by_meta xs) = order_by_meta (filter P xs)"
  by (simp add: order_by_meta_def filter_sort)

lemma length_order_by_meta: "length (order_by_meta xs) = length xs"
  by (simp add: order_by_meta_def)

lemma status_filter:
  "(if status = ''active'' then filter_completed False (objects_filter_user u d)
    else if status = ''completed'' then filter_completed True (objects_filter_user u d)
    else objects_filter_user u d)
   = order_by_meta (filter (\<lambda>t. user t = Some u \<and> status_matches status t) (rows d))"
  by (auto simp: filter_completed_def filter_user_def status_matches_def objects_filter_user_def
      filter_order_by_meta intro!: arg_cong [where f = order_by_meta] filter_cong)

text \<open>
  What the list view computes: the counts over all rows of the caller and the ordered
  list of the caller's rows that match the filters, unless the priority parameter
  passes \<open>isdigit\<close> and \<open>int\<close> raises on it.
\<close>

lemma context_of_request:
  "get_context_data today u params d =
     (if isdigit (dict_get params ''priority'' []) \<and>
         (\<not> list_all isdecimal_char (dict_get params ''priority'' []) \<or>
          int_max_str_digits < length (dict_get params ''priority'' []))
      then Inl ValueError
      else Inr \<lparr>todos = order_by_meta (filter (\<lambda>t. user t = Some u \<and>
                    status_matches (dict_get params ''status'' ''all'') t \<and>
                    priority_matches (dict_get params ''priority'' []) t) (rows d)),
             total_count = length (filter (\<lambda>t. user t = Some u) (rows d)),
             active_count = length (filter (\<lambda>t. user t = Some u \<and> \<not> completed t) (rows d)),
             completed_count = length (filter (\<lambda>t. user t = Some u \<and> completed t) (rows d)),
             overdue_count = length (filter (\<lambda>t. user t = Some u \<and> is_overdue today t) (rows d)),
             current_filter = dict_get params ''status'' ''all'',
             priority_filter = dict_get params ''priority'' []\<rparr>)"
proof -
  let ?prio = "dict_get params ''priority'' []"
  let ?status = "dict_get params ''status'' ''all''"
  have cnt: "length (filter_completed False (objects_filter_user u d))
      = length (filter (\<lambda>t. user t = Some u \<and> \<not> completed t) (rows d))"
    "length (filter_completed True (objects_filter_user u d))
      = length (filter (\<lambda>t. user t = Some u \<and> completed t) (rows d))"
    "sum_list (map (\<lambda>t. Suc 0) (filter (is_overdue today) (objects_filter_user u d)))
      = length (filter (\<lambda>t. user t = Some u \<and> is_overdue today t) (rows d))"
    "length (objects_filter_user u d) = length (filter (\<lambda>t. user t = Some u) (rows d))"
    by (simp_all add: filter_completed_def filter_user_def objects_filter_user_def
        filter_order_by_meta length_order_by_meta count_ones)
  consider (nodigit) "\<not> isdigit ?prio"
    | (dec) "isdigit ?prio" "list_all isdecimal_char ?prio" "length ?prio \<le> int_max_str_digits"
    | (raises) "isdigit ?prio" "\<not> list_all isdecimal_char ?prio \<or> int_max_str_digits < length ?prio"
    by fastforce
  then show ?thesis
  proof cases
    case nodigit
    then have pm: "\<And>t. priority_matches ?prio t"
      using isdigit_decimal by (auto simp: priority_matches_def)
    show ?thesis using nodigit
      by (simp add: get_context_data_def Let_def cnt status_filter pm)
  next
    case dec
    then have ne: "?prio \<noteq> []" by (simp add: isdigit_def)
    have pm: "\<And>t. priority_matches ?prio t = (priority t = decimal_value ?prio)"
      using dec ne by (simp add: priority_matches_def)
    have fl: "filter_priority (decimal_value ?prio)
        (order_by_meta (filter (\<lambda>t. user t = Some u \<and> status_matches ?status t) (rows d)))
      = order_by_meta
          (filter (\<lambda>t. user t = Some u \<and> status_matches ?status t \<and> priority_matches ?prio t)
             (rows d))"
      by (auto simp: filter_priority_def pm filter_order_by_meta
          intro!: arg_cong [where f = order_by_meta] filter_cong)
    have nr: "\<not> (\<not> list_all isdecimal_char ?prio \<or> int_max_str_digits < length ?prio)"
      using dec by simp
    show ?thesis using dec ne nr
      by (simp add: get_context_data_def Let_def cnt status_filter int_of_digits_decimal fl)
  next
    case raises
    then have ne: "?prio \<noteq> []" by (simp add: isdigit_def)
    show ?thesis using raises ne int_of_digits_raises [OF raises(2)]
      by (simp add: get_context_data_def Let_def)
  qed
qed

lemma active_3_params:
  "dict_get active_3 ''status'' ''all'' = ''active''"
  "dict_get active_3 ''priority'' [] = ''3''"
  by (simp_all add: dict_get_def active_3_def)

lemma three_is_decimal: "isdigit ''3''" "list_all isdecimal_char ''3''" "decimal_value ''3'' = 3"
  by (simp_all add: isdigit_def isdigit_char_def isdecimal_char_def)

text \<open>
  An example: with \<open>status=active&priority=3\<close> the list of user 1 has two of the four
  rows, and the counts are those of all three rows of user 1.
\<close>

lemma context_active_3:
  "get_context_data (date_of 100) 1 active_3 four_task_db =
     Inr \<lparr>todos = [milk, rent], total_count = 3, active_count = 2, completed_count = 1,
          overdue_count = 1, current_filter = ''active'', priority_filter = ''3''\<rparr>"
  by (simp add: context_of_request active_3_params three_is_decimal status_matches_def
      priority_matches_def four_task_db_def milk_def tea_def walk_def rent_def is_overdue_def
      date_of_def isdecimal_char_def int_max_str_digits_def order_by_meta_def
      meta_ordering_key_def)

text \<open>A priority parameter of 4301 digits exceeds the limit of \<open>int\<close>.\<close>

lemma context_of_long_priority:
  "get_context_data today u [''priority'' \<mapsto> replicate 4301 (CHR ''1'')] d = Inl ValueError"
  by (simp add: context_of_request dict_get_def isdigit_def isdigit_char_def isdecimal_char_def
      list_all_iff int_max_str_digits_def)

text \<open>
  Claim C9. The list request whose priority parameter is the superscript two gets neither
  counts nor a list: the parameter passes \<open>isdigit\<close>, \<open>int\<close> raises
  \<open>ValueError\<close> on it, \<open>get_context_data\<close> ends with this exception and the list
  view answers with the 500 page.
\<close>

theorem list_request_with_superscript_digit_fails:
  "dict_get superscript_two ''priority'' [] = [CHR 0xB2] \<and>
   isdigit [CHR 0xB2] \<and>
   int_of_digits [CHR 0xB2] = Inl ValueError \<and>
   get_context_data today u superscript_two d = Inl ValueError \<and>
   TodoListView now (get_superscript_by u) d = (ServerError ValueError, d)"
proof -
  have p: "dict_get superscript_two ''priority'' [] = [CHR 0xB2]"
    by (simp add: dict_get_def superscript_two_def)
  have g: "isdigit [CHR 0xB2]"
    by (simp add: isdigit_def isdigit_char_def)
  have n: "\<not> list_all isdecimal_char [CHR 0xB2]"
    by (simp add: isdecimal_char_def)
  have i: "int_of_digits [CHR 0xB2] = Inl ValueError"
    using n by (simp add: int_of_digits_def)
  have c: "get_context_data today u superscript_two d = Inl ValueError" for today
    using g n by (simp add: context_of_request p)
  have v: "TodoListView now (get_superscript_by u) d = (ServerError ValueError, d)"
    by (simp add: TodoListView_def login_required_def get_superscript_by_def c uncaught_def)
  show ?thesis using p g i c v by simp
qed

section \<open>The delete view on a key that no row of the caller has\<close>

lemma get_object_never_DoesNotExist: "get_object qs k \<noteq> Inl DoesNotExist"
  by (auto simp: get_object_def split: sum.splits exn.splits)

lemma delete_never_reports_not_found:
  "fst (delete u k d) \<noteq> Redirect todo_list_url [(ERROR, ''Task not found or already deleted.'')]"
proof (cases "get_object (get_queryset u d) k")
  case (Inl e)
  then have "e \<noteq> DoesNotExist" using get_object_never_DoesNotExist by metis
  then show ?thesis using Inl by (simp add: delete_def delete_except_def)
next
  case (Inr obj)
  then show ?thesis by (simp add: delete_def)
qed

lemma delete_view_never_reports_not_found:
  "fst (TodoDeleteView req k d) \<noteq>
     Redirect todo_list_url [(ERROR, ''Task not found or already deleted.'')]"
  by (simp add: TodoDeleteView_def login_required_def uncaught_def
      split: option.splits sum.splits http_method.splits)

lemma delete_absent:
  "Some k \<notin> set (map pk (rows d)) \<Longrightarrow>
   delete u k d =
     (Redirect todo_list_url [(ERROR, ''An error occurred while deleting the task.'')], d)"
  using get_object_or_404_absent [of k d u]
  by (simp add: delete_def get_object_eq_or_404 delete_except_def)

lemma delete_view_absent:
  "Some k \<notin> set (map pk (rows d)) \<Longrightarrow> TodoDeleteView (post_by u) k d = (PageNotFound, d)"
  using delete_not_found [OF get_object_or_404_absent, of k d "post_by u" u]
  by (simp add: post_by_def)

lemma delete_view_milk:
  "TodoDeleteView (post_by 1) 1 one_task_db =
     (Redirect todo_list_url [], \<lparr>rows = [], next_pk = 2\<rparr>)"
proof -
  have "get_object (get_queryset 1 one_task_db) 1 = Inr milk"
    using get_object_or_404_found [OF one_task_db_facts(1-3), of 1] one_task_db_facts(4)
    by (simp add: get_object_eq_or_404)
  then show ?thesis
    by (simp add: TodoDeleteView_def login_required_def post_by_def model_delete_def
        one_task_db_def)
qed

text \<open>
  Claim C8. For a key that no row has, on the empty table and again after the task was
  deleted, the method \<open>delete\<close> queues the message of its second \<open>except\<close> clause,
  and the POST of the delete view, which does not pass through \<open>delete\<close>, answers
  with the 404 page and no message. The message of the first \<open>except\<close> clause, which
  handles \<open>Todo.DoesNotExist\<close>, is the answer of no call of \<open>delete\<close> and of no
  request to the delete view: the lookup raises \<open>Http404\<close> instead.
\<close>

theorem delete_of_missing_task_never_reports_not_found:
  "delete 1 1 empty_db =
     (Redirect todo_list_url [(ERROR, ''An error occurred while deleting the task.'')], empty_db) \<and>
   delete 1 1 \<lparr>rows = [], next_pk = 2\<rparr> =
     (Redirect todo_list_url [(ERROR, ''An error occurred while deleting the task.'')],
      \<lparr>rows = [], next_pk = 2\<rparr>) \<and>
   fst (delete u k d) \<noteq>
     Redirect todo_list_url [(ERROR, ''Task not found or already deleted.'')] \<and>
   delete_except DoesNotExist =
     Redirect todo_list_url [(ERROR, ''Task not found or already deleted.'')] \<and>
   TodoDeleteView (post_by 1) 1 empty_db = (PageNotFound, empty_db) \<and>
   TodoDeleteView (post_by 1) 1 one_task_db =
     (Redirect todo_list_url [], \<lparr>rows = [], next_pk = 2\<rparr>) \<and>
   TodoDeleteView (post_by 1) 1 \<lparr>rows = [], next_pk = 2\<rparr> =
     (PageNotFound, \<lparr>rows = [], next_pk = 2\<rparr>) \<and>
   fst (TodoDeleteView req k d) \<noteq>
     Redirect todo_list_url [(ERROR, ''Task not found or already deleted.'')]"
proof -
  have a: "delete 1 1 empty_db =
     (Redirect todo_list_url [(ERROR, ''An error occurred while deleting the task.'')], empty_db)"
    by (rule delete_absent) (simp add: empty_db_def)
  have b: "delete 1 1 \<lparr>rows = [], next_pk = 2\<rparr> =
     (Redirect todo_list_url [(ERROR, ''An error occurred while deleting the task.'')],
      \<lparr>rows = [], next_pk = 2\<rparr>)"
    by (rule delete_absent) simp
  have e: "delete_except DoesNotExist =
     Redirect todo_list_url [(ERROR, ''Task not found or already deleted.'')]"
    by (simp add: delete_except_def)
  have v1: "TodoDeleteView (post_by 1) 1 empty_db = (PageNotFound, empty_db)"
    by (rule delete_view_absent) (simp add: empty_db_def)
  have v2: "TodoDeleteView (post_by 1) 1 \<lparr>rows = [], next_pk = 2\<rparr> =
     (PageNotFound, \<lparr>rows = [], next_pk = 2\<rparr>)"
    by (rule delete_view_absent) simp
  show ?thesis
    using a b delete_never_reports_not_found [of u k d] e v1 delete_view_milk v2
      delete_view_never_reports_not_found [of req k d]
    by (simp only:) simp
qed

section \<open>Primary keys stay unique\<close>

lemma pks_ok_distinct: "pks_ok d \<Longrightarrow> distinct (map pk (rows d))"
  by (simp add: pks_ok_def)

lemma map_pk_replace:
  "pk self = Some k \<Longrightarrow> map pk (map (\<lambda>t. if pk t = Some k then self else t) xs) = map pk xs"
  by (induction xs) auto

lemma model_save_pks_ok:
  assumes "pks_ok d" and "pk self = None \<or> pk self \<in> set (map pk (rows d))"
  shows "pks_ok (snd (model_save now self d))"
proof (cases "pk self")
  case None
  have fresh: "Some (next_pk d) \<notin> set (map pk (rows d))"
    using assms(1) by (force simp: pks_ok_def list_all_iff split: option.splits)
  show ?thesis using None assms(1) fresh
    by (auto simp: model_save_def Let_def pks_ok_def list_all_iff split: option.splits)
next
  case (Some k)
  then have present: "Some k \<in> set (map pk (rows d))" using assms(2) by simp
  have "map pk (map (\<lambda>t. if pk t = Some k then self\<lparr>updated_at := now\<rparr> else t) (rows d))
      = map pk (rows d)"
    using Some by (simp add: map_pk_replace del: map_map)
  moreover have "\<forall>t\<in>set (rows d). \<exists>j. pk t = Some j \<and> 0 < j \<and> j < next_pk d"
    using assms(1) by (auto simp: pks_ok_def list_all_iff split: option.splits)
  ultimately show ?thesis using Some present assms(1)
    by (auto simp: model_save_def Let_def pks_ok_def list_all_iff simp del: map_map
        split: option.splits)
qed

lemma model_delete_pks_ok: "pks_ok d \<Longrightarrow> pks_ok (model_delete t d)"
  by (auto simp: pks_ok_def model_delete_def list_all_iff distinct_map_filter
      split: option.splits)

lemma save_pks_ok:
  "save now self d = Inr (s', d') \<Longrightarrow> pks_ok d \<Longrightarrow>
   pk self = None \<or> pk self \<in> set (map pk (rows d)) \<Longrightarrow> pks_ok d'"
  using model_save_pks_ok [of d self now] by (auto simp: save_def split: if_splits)

lemma found_pk_present:
  "get_object_or_404 d k u = Inr obj \<Longrightarrow> pk obj \<in> set (map pk (rows d))"
  using get_object_or_404_Inr by force

lemma create_pks_ok: "pks_ok d \<Longrightarrow> pks_ok (snd (TodoCreateView now req d))"
proof -
  assume o: "pks_ok d"
  have "\<And>c u s' d'. save now ((construct_instance c new_todo)\<lparr>user := Some u\<rparr>) d = Inr (s', d')
      \<Longrightarrow> pks_ok d'"
    using save_pks_ok [OF _ o] by (simp add: new_todo_def)
  then show ?thesis using o
    by (auto simp: TodoCreateView_def login_required_def
        split: option.splits http_method.splits sum.splits prod.splits)
qed

lemma update_pks_ok: "pks_ok d \<Longrightarrow> pks_ok (snd (TodoUpdateView now req k d))"
proof -
  assume o: "pks_ok d"
  have "\<And>c u obj s' d'. get_object_or_404 d k u = Inr obj \<Longrightarrow>
      save now (construct_instance c obj) d = Inr (s', d') \<Longrightarrow> pks_ok d'"
    using save_pks_ok [OF _ o] found_pk_present by simp
  then show ?thesis using o
    by (auto simp: TodoUpdateView_def login_required_def get_object_eq_or_404
        split: option.splits http_method.splits sum.splits prod.splits)
qed

lemma toggle_pks_ok: "pks_ok d \<Longrightarrow> pks_ok (snd (toggle_completion now req k d))"
proof -
  assume o: "pks_ok d"
  have "\<And>u obj s' d'. get_object_or_404 d k u = Inr obj \<Longrightarrow>
      save now (obj\<lparr>completed := \<not> completed obj\<rparr>) d = Inr (s', d') \<Longrightarrow> pks_ok d'"
    using save_pks_ok [OF _ o] found_pk_present by simp
  then show ?thesis using o
    by (auto simp: toggle_completion_def login_required_def
        split: option.splits sum.splits prod.splits)
qed

lemma delete_pks_ok: "pks_ok d \<Longrightarrow> pks_ok (snd (TodoDeleteView req k d))"
  by (auto simp: TodoDeleteView_def login_required_def model_delete_pks_ok
      split: option.splits http_method.splits sum.splits)

lemma dispatch_pks_ok: "pks_ok d \<Longrightarrow> pks_ok (snd (dispatch now r req d))"
  by (cases r)
    (simp_all add: dispatch_def list_view_db create_pks_ok update_pks_ok delete_pks_ok
      toggle_pks_ok)

lemma run_pks_ok: "pks_ok d \<Longrightarrow> pks_ok (run reqs d)"
  by (induction reqs arbitrary: d) (auto simp: dispatch_pks_ok)

text \<open>
  The hypothesis of unique keys in the statements above holds in every table that the
  routes reach from the empty table.
\<close>

lemma reachable_keys_distinct: "distinct (map pk (rows (run reqs empty_db)))"
  using run_pks_ok [of empty_db reqs] by (simp add: pks_ok_def empty_db_def)

end
